theory Spec2Isabelle
  imports Complex_Main
begin

section \<open>Conventions\<close>

text \<open>
  The repository holds two variants of one viewer: \<^verbatim>\<open>src/sew_predictive.jsx\<close> and the
  program embedded in \<^verbatim>\<open>src/README.md\<close>. Where the two differ only in constants the
  model takes the variant as a parameter; where the code differs there is one definition
  for each.

  JavaScript numbers are modelled as real numbers: the arithmetic is the exact one, with
  no rounding. \<^verbatim>\<open>Math.sin\<close>, \<^verbatim>\<open>Math.cos\<close> and \<^verbatim>\<open>Math.PI\<close> are \<open>sin\<close>, \<open>cos\<close> and \<open>pi\<close>.
\<close>

datatype variant = Jsx | Readme

section \<open>Selection (App, CompCard onClick)\<close>

text \<open>
  \<^verbatim>\<open>onClick={() => setSelectedComp(selectedComp === c.id ? null : c.id)}\<close>
  The state is \<^verbatim>\<open>null\<close> (\<open>None\<close>) or a component id.
\<close>

definition card_click :: "string option \<Rightarrow> string \<Rightarrow> string option" where
  "card_click selectedComp cid = (if selectedComp = Some cid then None else Some cid)"

section \<open>The partial-cylinder builder\<close>

text \<open>
  A \<^verbatim>\<open>BufferGeometry\<close> with the three attributes the builder sets. The attributes are
  flat arrays with item size 3, as \<^verbatim>\<open>Float32BufferAttribute(verts, 3)\<close> makes them.
\<close>

record buffer_geometry =
  position_attr :: "real list"
  normal_attr :: "real list"
  index_attr :: "nat list"

text \<open>The angle of ring sample \<open>i\<close>: \<^verbatim>\<open>t = i / radSegs; a = arcStart + (arcEnd - arcStart) * t\<close>.\<close>

definition sample_angle :: "real \<Rightarrow> real \<Rightarrow> nat \<Rightarrow> nat \<Rightarrow> real" where
  "sample_angle arcStart arcEnd radSegs i =
     (let t = real i / real radSegs in arcStart + (arcEnd - arcStart) * t)"

text \<open>One pass of the first loop: two vertices and two normals are pushed.\<close>

definition ring_body ::
  "real \<Rightarrow> real \<Rightarrow> real \<Rightarrow> real \<Rightarrow> nat \<Rightarrow> nat \<Rightarrow> real list \<times> real list \<Rightarrow> real list \<times> real list"
where
  "ring_body radius halfH arcStart arcEnd radSegs i acc =
     (let verts = fst acc; norms = snd acc;
          a = sample_angle arcStart arcEnd radSegs i;
          cx = sin a; cy = cos a
      in (verts @ [cx * radius, cy * radius, - halfH] @ [cx * radius, cy * radius, halfH],
          norms @ [cx, cy, 0] @ [cx, cy, 0]))"

text \<open>One pass of the second loop: the two triangles of a quad.\<close>

definition quad_body :: "nat \<Rightarrow> nat list \<Rightarrow> nat list" where
  "quad_body i indices =
     (let a = i * 2; b = a + 1; c = a + 2; d = c + 1
      in indices @ [a, c, b] @ [b, c, d])"

definition partialCylinder :: "real \<Rightarrow> real \<Rightarrow> real \<Rightarrow> real \<Rightarrow> nat \<Rightarrow> buffer_geometry" where
  "partialCylinder radius height arcStart arcEnd radSegs =
     (let halfH = height * 0.5;
          rings = fold (ring_body radius halfH arcStart arcEnd radSegs) [0..<Suc radSegs] ([], []);
          indices = fold quad_body [0..<radSegs] []
      in \<lparr> position_attr = fst rings, normal_attr = snd rings, index_attr = indices \<rparr>)"

text \<open>What a reader of the geometry sees: counts are array length over item size.\<close>

definition vertex_count :: "buffer_geometry \<Rightarrow> nat" where
  "vertex_count g = length (position_attr g) div 3"

definition triangle_count :: "buffer_geometry \<Rightarrow> nat" where
  "triangle_count g = length (index_attr g) div 3"

definition normal_at :: "buffer_geometry \<Rightarrow> nat \<Rightarrow> real \<times> real \<times> real" where
  "normal_at g j =
     (normal_attr g ! (3 * j), normal_attr g ! (3 * j + 1), normal_attr g ! (3 * j + 2))"

definition sq_norm :: "real \<times> real \<times> real \<Rightarrow> real" where
  "sq_norm v = (case v of (x, y, z) \<Rightarrow> x * x + y * y + z * z)"

text \<open>The cut and the solid arc of the housing, for any cut.\<close>

definition CUT_START :: real where
  "CUT_START = - 50 * pi / 180"

definition CUT_END :: real where
  "CUT_END = 140 * pi / 180"

definition SOLID_START :: "real \<Rightarrow> real \<Rightarrow> real" where
  "SOLID_START cutStart cutEnd = cutEnd"

definition SOLID_END :: "real \<Rightarrow> real \<Rightarrow> real" where
  "SOLID_END cutStart cutEnd = cutStart + pi * 2"

text \<open>
  The one call of the builder, for the housing barrel of \<^verbatim>\<open>src/README.md\<close>:
  \<^verbatim>\<open>partialCylinder(hR, hL, SOLID_START, SOLID_END, 48)\<close> with hR = 0.088 and hL = 0.230.
\<close>

definition housingGeo :: buffer_geometry where
  "housingGeo =
     partialCylinder 0.088 0.230 (SOLID_START CUT_START CUT_END) (SOLID_END CUT_START CUT_END) 48"

section \<open>The orbit controller\<close>

text \<open>\<^verbatim>\<open>Math.atan2(y, x)\<close>, without the signed zeros.\<close>

definition atan2 :: "real \<Rightarrow> real \<Rightarrow> real" where
  "atan2 y x =
     (if 0 < x then arctan (y / x)
      else if x < 0 then (if 0 \<le> y then arctan (y / x) + pi else arctan (y / x) - pi)
      else if 0 < y then pi / 2
      else if y < 0 then - pi / 2
      else 0)"

record spherical =
  radius :: real
  phi :: real
  theta :: real

text \<open>
  \<^verbatim>\<open>new THREE.Spherical().setFromVector3(v)\<close> is code of the Three.js library, not of the
  repository. It sets the radius to the length of \<open>v\<close>; when that is 0 both angles are 0,
  otherwise \<^verbatim>\<open>theta = atan2(x, z)\<close> and \<^verbatim>\<open>phi = acos(clamp(y / radius, -1, 1))\<close>.
\<close>

definition setFromVector3 :: "real \<times> real \<times> real \<Rightarrow> spherical" where
  "setFromVector3 v =
     (case v of (x, y, z) \<Rightarrow>
        (let r = sqrt (x * x + y * y + z * z)
         in if r = 0 then \<lparr> radius = r, phi = 0, theta = 0 \<rparr>
            else \<lparr> radius = r, phi = arccos (max (- 1) (min 1 (y / r))), theta = atan2 x z \<rparr>))"

text \<open>\<^verbatim>\<open>camera.position.set(...)\<close> of each variant.\<close>

fun camera_position :: "variant \<Rightarrow> real \<times> real \<times> real" where
  "camera_position Jsx = (0.38, 0.16, 0.34)"
| "camera_position Readme = (0.34, 0.18, 0.36)"

text \<open>The two bounds of the wheel handler's clamp.\<close>

fun zoom_min :: "variant \<Rightarrow> real" where
  "zoom_min Jsx = 0.2"
| "zoom_min Readme = 0.22"

fun zoom_max :: "variant \<Rightarrow> real" where
  "zoom_max Jsx = 1.0"
| "zoom_max Readme = 0.9"

text \<open>The closure variables of the ORBIT block: \<^verbatim>\<open>sph\<close>, \<^verbatim>\<open>isDrag\<close> and \<^verbatim>\<open>prev\<close>.\<close>

record orbit =
  sph :: spherical
  isDrag :: bool
  prev_x :: real
  prev_y :: real

definition orbit_init :: "variant \<Rightarrow> orbit" where
  "orbit_init v = \<lparr> sph = setFromVector3 (camera_position v), isDrag = False, prev_x = 0, prev_y = 0 \<rparr>"

definition onDown :: "real \<Rightarrow> real \<Rightarrow> orbit \<Rightarrow> orbit" where
  "onDown x y ob = ob\<lparr> isDrag := True, prev_x := x, prev_y := y \<rparr>"

definition onUp :: "orbit \<Rightarrow> orbit" where
  "onUp ob = ob\<lparr> isDrag := False \<rparr>"

definition onMove :: "real \<Rightarrow> real \<Rightarrow> orbit \<Rightarrow> orbit" where
  "onMove x y ob =
     (if \<not> isDrag ob then ob
      else
        (let s0 = sph ob;
             s1 = s0\<lparr> theta := theta s0 - (x - prev_x ob) * 0.005 \<rparr>;
             s2 = s1\<lparr> phi := phi s1 - (y - prev_y ob) * 0.005 \<rparr>;
             s3 = s2\<lparr> phi := max 0.15 (min (pi - 0.15) (phi s2)) \<rparr>
         in ob\<lparr> sph := s3, prev_x := x, prev_y := y \<rparr>))"

definition onWheel :: "variant \<Rightarrow> real \<Rightarrow> orbit \<Rightarrow> orbit" where
  "onWheel v deltaY ob =
     ob\<lparr> sph := (sph ob)\<lparr> radius :=
        max (zoom_min v) (min (zoom_max v) (radius (sph ob) + deltaY * 0.0004)) \<rparr> \<rparr>"

text \<open>
  The listeners registered on the canvas and the window. A touch event carries the list
  of its contact points; only a single touch is forwarded.
\<close>

datatype event =
    Mousedown real real
  | Mouseup
  | Mousemove real real
  | Wheel real
  | Touchstart "(real \<times> real) list"
  | Touchmove "(real \<times> real) list"
  | Touchend

fun dispatch :: "variant \<Rightarrow> event \<Rightarrow> orbit \<Rightarrow> orbit" where
  "dispatch v (Mousedown x y) ob = onDown x y ob"
| "dispatch v Mouseup ob = onUp ob"
| "dispatch v (Mousemove x y) ob = onMove x y ob"
| "dispatch v (Wheel deltaY) ob = onWheel v deltaY ob"
| "dispatch v (Touchstart touches) ob =
     (if length touches = 1 then onDown (fst (touches ! 0)) (snd (touches ! 0)) ob else ob)"
| "dispatch v (Touchmove touches) ob =
     (if length touches = 1 then onMove (fst (touches ! 0)) (snd (touches ! 0)) ob else ob)"
| "dispatch v Touchend ob = onUp ob"

definition run_events :: "variant \<Rightarrow> event list \<Rightarrow> orbit" where
  "run_events v evs = fold (dispatch v) evs (orbit_init v)"

section \<open>The scene graph\<close>

text \<open>
  A material object is known by its identity: the name of the constant that holds it, or,
  for a material created in place, the mesh it was created for and the pass of the loop.
\<close>

datatype material = Mat string | Inline string nat

text \<open>
  A node of the scene graph, with the fields the frame callback reads or writes.
  \<open>compId\<close> and \<open>isLabel\<close> are the fields of \<^verbatim>\<open>userData\<close>; a field that is
  \<^verbatim>\<open>undefined\<close> is \<open>None\<close> (\<open>False\<close> for \<open>isLabel\<close>, which is only tested for truth).
  A group has no material.
\<close>

record object3d =
  isMesh :: bool
  compId :: "string option"
  isLabel :: bool
  material :: "material option"
  position_x :: real
  position_y :: real
  position_z :: real

definition Mesh :: "material \<Rightarrow> string \<Rightarrow> real \<times> real \<times> real \<Rightarrow> object3d" where
  "Mesh mat cid pos =
     (case pos of (x, y, z) \<Rightarrow>
        \<lparr> isMesh = True, compId = Some cid, isLabel = False, material = Some mat,
          position_x = x, position_y = y, position_z = z \<rparr>)"

definition Group :: "real \<times> real \<times> real \<Rightarrow> object3d" where
  "Group pos =
     (case pos of (x, y, z) \<Rightarrow>
        \<lparr> isMesh = False, compId = None, isLabel = False, material = None,
          position_x = x, position_y = y, position_z = z \<rparr>)"

definition Line :: "material \<Rightarrow> object3d" where
  "Line mat =
     \<lparr> isMesh = False, compId = None, isLabel = False, material = Some mat,
       position_x = 0, position_y = 0, position_z = 0 \<rparr>"

text \<open>
  The subtree of \<^verbatim>\<open>motor\<close> is kept as the list of its nodes in the order in which
  \<^verbatim>\<open>motor.traverse\<close> visits them: a node, then the subtrees of its children in the order of
  the \<^verbatim>\<open>add\<close> calls. The identity of a node is its place in this list.

  \<^verbatim>\<open>src/sew_predictive.jsx\<close>: motor, statorG and its children, rotorG and its children,
  the last of which is fanG with the hub and the blades.
\<close>

definition build_jsx :: "object3d list" where
  "build_jsx =
     (let hR = 0.090; hL = 0.240; rR = 0.074; rL = 0.200;
          ecT = 0.022; shR = 0.014; shExtD = 0.065; shExtF = 0.030;
          stInR = hR - 0.008;
          totalSh = rL + shExtD + shExtF;
          shOff = (shExtF - shExtD) / 2;
          keyL = shExtD * 0.7;
          fanZ = rL / 2 + shExtF + ecT + 0.005 + shOff;
          guardZ = fanZ + 0.012;
          jbY = hR + 0.006 + 0.017;
          footY = - (hR + 0.006)
      in
        [Group (0, 0, 0)]
        @ [Group (0, 0, 0)]
        @ [Mesh (Mat ''housing'') ''housing'' (0, 0, 0)]
        @ map (\<lambda>i. let a = (real i / 28) * pi * 2
                   in Mesh (Mat ''housing'') ''housing''
                        (0, cos a * (hR + 0.003), sin a * (hR + 0.003))) [0..<28]
        @ map (\<lambda>(idx, z). Mesh (Mat ''endcap'')
                   (if idx = 0 then ''bearing_drive'' else ''bearing_fan'') (0, 0, z))
            (enumerate 0 [- (hL / 2 + ecT / 2), hL / 2 + ecT / 2])
        @ map (\<lambda>i. let a = (real i / 36) * pi * 2
                   in Mesh (Mat ''coilMat'') ''stator_winding''
                        (0, cos a * stInR, sin a * stInR)) [0..<36]
        @ map (\<lambda>(idx, z). Mesh (Mat ''barMat'')
                   (if idx = 0 then ''bearing_drive'' else ''bearing_fan'') (0, 0, z))
            (enumerate 0 [- (hL / 2 + ecT + 0.001), hL / 2 + ecT + 0.001])
        @ map (\<lambda>z. Mesh (Mat ''guardMat'') ''fan_guard'' (0, 0, z)) [guardZ, guardZ - 0.02]
        @ [Mesh (Mat ''guardMat'') ''fan_guard'' (0, 0, guardZ - 0.009)]
        @ [Mesh (Mat ''boxMat'') ''junction_box'' (0, jbY, - 0.02)]
        @ [Mesh (Mat ''boxMat'') ''junction_box'' (0, jbY + 0.0185, - 0.02)]
        @ [Mesh (Mat ''footMat'') ''housing'' (0, footY, 0)]
        @ [Group (0, 0, 0)]
        @ [Mesh (Mat ''rotorMat'') ''rotor_bars'' (0, 0, 0)]
        @ map (\<lambda>i. let a = (real i / 32) * pi * 2
                   in Mesh (Mat ''barMat'') ''rotor_bars''
                        (0, cos a * (rR - 0.004), sin a * (rR - 0.004))) [0..<32]
        @ map (\<lambda>z. Mesh (Mat ''ringMat'') ''rotor_bars'' (0, 0, z)) [- (rL / 2), rL / 2]
        @ [Mesh (Mat ''shaftMat'') ''shaft'' (0, 0, shOff)]
        @ [Mesh (Inline ''keyMesh'' 0) ''shaft''
             (0, shR - 0.002, - (rL / 2 + shExtD / 2 - keyL / 2 - shOff))]
        @ [Group (0, 0, fanZ - shOff)]
        @ [Mesh (Mat ''fanBlkMat'') ''fan_guard'' (0, 0, 0)]
        @ map (\<lambda>i. let a = (real i / 6) * pi * 2
                   in Mesh (Mat ''fanBlkMat'') ''fan_guard''
                        (0, cos a * 0.034, sin a * 0.034)) [0..<6])"

text \<open>
  The program in \<^verbatim>\<open>src/README.md\<close>. The four \<^verbatim>\<open>THREE.Line\<close> objects of the cut edges are
  children of statorG and are visited, but are not meshes. A ball group is visited before
  its nine balls, a spoke group before its spoke. The label sprites are children of the
  scene, not of motor, and are not in the list.
\<close>

definition build_readme :: "object3d list" where
  "build_readme =
     (let hR = 0.088; hL = 0.230; rR = 0.070; rL = 0.190; ecT = 0.020; shR = 0.012;
          FIN_COUNT = 18; finH = 0.008;
          stInR = hR - 0.008;
          SLOT_N = 24;
          END_LOOPS = 12;
          drL = 0.085; fnL = 0.042;
          lamN = 34; lamT = rL / real lamN;
          fanZ = rL * 0.5 + fnL + ecT + 0.008;
          gZ = fanZ + 0.012;
          jbY = hR + 0.024;
          footY = - (hR + 0.007)
      in
        [Group (0, 0, 0)]
        @ [Group (0, 0, 0)]
        @ [Mesh (Mat ''mHousing'') ''housing'' (0, 0, 0)]
        @ map (\<lambda>a. Line (Mat ''edgeMat'')) [CUT_START, CUT_END]
        @ map (\<lambda>z. Line (Mat ''edgeMat'')) [- hL * 0.5, hL * 0.5]
        @ map (\<lambda>i. let a = SOLID_START CUT_START CUT_END
                           + (SOLID_END CUT_START CUT_END - SOLID_START CUT_START CUT_END)
                             * ((real i + 0.5) / real FIN_COUNT)
                   in Mesh (Inline ''fin'' i) ''housing''
                        (sin a * (hR + finH * 0.5), cos a * (hR + finH * 0.5), 0)) [0..<FIN_COUNT]
        @ [Mesh (Mat ''mEndSolid'') ''bearing_drive'' (0, 0, - (hL * 0.5 + ecT * 0.5))]
        @ [Mesh (Mat ''mEndTrans'') ''bearing_fan'' (0, 0, hL * 0.5 + ecT * 0.5)]
        @ map (\<lambda>(z, cid, mat). Mesh mat cid (0, 0, z))
            [(- (hL * 0.5 + ecT + 0.004), ''bearing_drive'', Mat ''mEndSolid''),
             (hL * 0.5 + ecT + 0.004, ''bearing_fan'', Mat ''mEndTrans'')]
        @ map (\<lambda>b. let ba = (real b / 4) * pi * 2 + pi / 6
                   in Mesh (Mat ''mBolt'') ''bearing_drive''
                        (sin ba * 0.046, cos ba * 0.046, - (hL * 0.5 + ecT + 0.003))) [0..<4]
        @ concat (map (\<lambda>i. let a = (real i / real SLOT_N) * pi * 2;
                                cx = sin a; cy = cos a;
                                slotR = stInR - 0.004
                            in [Mesh (Mat ''mSlot'') ''stator_winding''
                                  (cx * (slotR + 0.001), cy * (slotR + 0.001), 0),
                                Mesh (Mat ''mCoil'') ''stator_winding''
                                  (cx * (slotR - 0.002), cy * (slotR - 0.002), 0)]) [0..<SLOT_N])
        @ concat (map (\<lambda>z. concat (map (\<lambda>i.
                              let a = (real i / real END_LOOPS) * pi * 2;
                                  loopR = stInR - 0.014;
                                  cx = sin a * loopR; cy = cos a * loopR
                              in [Mesh (Mat ''mInsul'') ''stator_winding'' (cx, cy, z),
                                  Mesh (Mat ''mCoil'') ''stator_winding'' (cx, cy, z)])
                            [0..<END_LOOPS]))
            [- (rL * 0.5 + 0.006), rL * 0.5 + 0.006])
        @ concat (map (\<lambda>(z, cid).
                         let oR = 0.027; iR = 0.015; mR = (oR + iR) * 0.5
                         in [Mesh (Inline (''outer_'' @ cid) 0) cid (0, 0, z),
                             Mesh (Inline (''inner_'' @ cid) 0) cid (0, 0, z),
                             Group (0, 0, z)]
                            @ map (\<lambda>b. let ba = (real b / 9) * pi * 2
                                       in Mesh (Inline (''ball_'' @ cid) b) cid
                                            (sin ba * mR, cos ba * mR, 0)) [0..<9])
            [(- (hL * 0.5 + ecT + 0.002), ''bearing_drive''),
             (hL * 0.5 + ecT + 0.002, ''bearing_fan'')])
        @ map (\<lambda>gz. Mesh (Mat ''mGuard'') ''fan_guard'' (0, 0, gz)) [gZ, gZ - 0.018]
        @ [Mesh (Mat ''mGuard'') ''fan_guard'' (0, 0, gZ - 0.009)]
        @ concat (map (\<lambda>s. [Group (0, 0, gZ - 0.003),
                             Mesh (Mat ''mGuard'') ''fan_guard'' (0, 0.030, 0)]) [0..<10::nat])
        @ [Mesh (Mat ''mBox'') ''junction_box'' (0, jbY, - 0.018)]
        @ [Mesh (Mat ''mBox'') ''junction_box'' (0, jbY + 0.0165, - 0.018)]
        @ [Mesh (Mat ''mFoot'') ''housing'' (0, footY, 0)]
        @ map (\<lambda>(k, x, z). Mesh (Inline ''foot_bolt'' k) ''housing'' (x, footY, z))
            (enumerate 0 [(- 0.078, - 0.030), (- 0.078, 0.030), (0.078, - 0.030), (0.078, 0.030)])
        @ [Group (0, 0, 0)]
        @ map (\<lambda>i. Mesh (Mat ''mLam'') ''rotor_bars''
                      (0, 0, - (rL * 0.5) + lamT * (real i + 0.5))) [0..<lamN]
        @ map (\<lambda>i. let a = (real i / 28) * pi * 2
                   in Mesh (Mat ''mBar'') ''rotor_bars''
                        (sin a * (rR - 0.0032), cos a * (rR - 0.0032), 0)) [0..<28]
        @ map (\<lambda>z. Mesh (Mat ''mRing'') ''rotor_bars'' (0, 0, z)) [- (rL * 0.5), rL * 0.5]
        @ [Mesh (Mat ''mShaft'') ''shaft'' (0, 0, 0)]
        @ [Mesh (Mat ''mShaft'') ''shaft'' (0, 0, - (rL * 0.5 + drL * 0.5))]
        @ [Mesh (Mat ''mShaft'') ''shaft'' (0, 0, rL * 0.5 + fnL * 0.5)]
        @ [Mesh (Mat ''mShaft'') ''shaft'' (0, 0, - (rL * 0.5))]
        @ [Mesh (Inline ''kw'' 0) ''shaft'' (0, shR - 0.0016, - (rL * 0.5 + 0.035))]
        @ [Group (0, 0, fanZ)]
        @ [Mesh (Mat ''mFan'') ''fan_guard'' (0, 0, 0)]
        @ map (\<lambda>i. let a = (real i / 7) * pi * 2
                   in Mesh (Mat ''mFan'') ''fan_guard''
                        (sin a * 0.032, cos a * 0.032, 0)) [0..<7])"

fun build :: "variant \<Rightarrow> object3d list" where
  "build Jsx = build_jsx"
| "build Readme = build_readme"

fun highlightMat :: "variant \<Rightarrow> material" where
  "highlightMat Jsx = Mat ''highlightMat''"
| "highlightMat Readme = Mat ''mHLIGHT''"

text \<open>
  The \<^verbatim>\<open>emissiveIntensity\<close> each material is created with; a material created without one
  has the library's default, 1.
\<close>

fun emissive_init :: "variant \<Rightarrow> material \<Rightarrow> real" where
  "emissive_init Jsx m =
     (if m = Mat ''rotorMat'' then 0.35
      else if m = Mat ''coilMat'' then 0.2
      else if m = Mat ''highlightMat'' then 0.5
      else 1)"
| "emissive_init Readme m =
     (if m = Mat ''mCoil'' then 0.28
      else if m = Mat ''mHLIGHT'' then 0.55
      else 1)"

text \<open>\<^verbatim>\<open>motor.traverse(f)\<close> when \<open>f\<close> writes to the node it visits.\<close>

fun traverse_map :: "(nat \<Rightarrow> object3d \<Rightarrow> object3d) \<Rightarrow> nat \<Rightarrow> object3d list \<Rightarrow> object3d list" where
  "traverse_map f i [] = []"
| "traverse_map f i (c # cs) = f i c # traverse_map f (Suc i) cs"

text \<open>\<^verbatim>\<open>motor.traverse(f)\<close> when \<open>f\<close> writes to a store outside the graph.\<close>

fun traverse_fold :: "(nat \<Rightarrow> object3d \<Rightarrow> 's \<Rightarrow> 's) \<Rightarrow> nat \<Rightarrow> object3d list \<Rightarrow> 's \<Rightarrow> 's" where
  "traverse_fold f i [] s = s"
| "traverse_fold f i (c # cs) s = traverse_fold f (Suc i) cs (f i c s)"

text \<open>
  \<^verbatim>\<open>const origMats = new Map(); motor.traverse((c) => { if (c.isMesh) origMats.set(c, c.material); });\<close>
  \<^verbatim>\<open>origMats.get(c)\<close> is \<open>None\<close> for a node that was never set.
\<close>

definition origMats_set :: "nat \<Rightarrow> object3d \<Rightarrow> (nat \<Rightarrow> material option) \<Rightarrow> (nat \<Rightarrow> material option)" where
  "origMats_set i c om = (if isMesh c then om(i := material c) else om)"

definition store_origMats :: "object3d list \<Rightarrow> (nat \<Rightarrow> material option)" where
  "store_origMats objs = traverse_fold origMats_set 0 objs (\<lambda>_. None)"

section \<open>The frame callback\<close>

text \<open>
  The state the frame callback works on: the accumulated time, the \<^verbatim>\<open>rotation.z\<close> of the
  groups it turns, the nodes of motor, the map of original materials and the
  \<^verbatim>\<open>emissiveIntensity\<close> of every material object. A material is shared by all the meshes
  that hold it, so a write through one mesh is seen through the others.
\<close>

record viewer =
  timeRef :: real
  rotorG_rotation_z :: real
  fanG_rotation_z :: real
  bbGroups_rotation_z :: real
  motor :: "object3d list"
  origMats :: "nat \<Rightarrow> material option"
  emissiveIntensity :: "material \<Rightarrow> real"

text \<open>The state when the effect has run and before the first frame.\<close>

definition mount :: "variant \<Rightarrow> viewer" where
  "mount v =
     \<lparr> timeRef = 0, rotorG_rotation_z = 0, fanG_rotation_z = 0, bbGroups_rotation_z = 0,
       motor = build v, origMats = store_origMats (build v),
       emissiveIntensity = emissive_init v \<rparr>"

text \<open>\<^verbatim>\<open>const angV = (1740/60)*Math.PI*2;\<close>\<close>

definition angV :: real where
  "angV = (1740 / 60) * pi * 2"

text \<open>The value the callback assigns to \<^verbatim>\<open>rotorG.rotation.z\<close> at accumulated time \<open>t\<close>.\<close>

definition rotor_angle :: "real \<Rightarrow> real" where
  "rotor_angle t = t * angV"

text \<open>
  A JavaScript value in a condition: \<^verbatim>\<open>null\<close> and the empty string count as false, every
  other string as true.
\<close>

definition truthy :: "string option \<Rightarrow> bool" where
  "truthy hid = (case hid of None \<Rightarrow> False | Some s \<Rightarrow> s \<noteq> [])"

text \<open>\<^verbatim>\<open>origMats.get(c) || c.material\<close>\<close>

definition orig_or_current :: "(nat \<Rightarrow> material option) \<Rightarrow> nat \<Rightarrow> object3d \<Rightarrow> material option" where
  "orig_or_current om i c = (case om i of Some m \<Rightarrow> Some m | None \<Rightarrow> material c)"

text \<open>The highlight callback of \<^verbatim>\<open>src/sew_predictive.jsx\<close>.\<close>

definition highlight_visit_jsx ::
  "string option \<Rightarrow> (nat \<Rightarrow> material option) \<Rightarrow> nat \<Rightarrow> object3d \<Rightarrow> object3d"
where
  "highlight_visit_jsx hid om i c =
     (if isMesh c then
        (if truthy hid \<and> compId c = hid then c\<lparr> material := Some (highlightMat Jsx) \<rparr>
         else c\<lparr> material := orig_or_current om i c \<rparr>)
      else c)"

text \<open>The highlight callback of \<^verbatim>\<open>src/README.md\<close>, which also skips labels.\<close>

definition highlight_visit_readme ::
  "string option \<Rightarrow> (nat \<Rightarrow> material option) \<Rightarrow> nat \<Rightarrow> object3d \<Rightarrow> object3d"
where
  "highlight_visit_readme hid om i c =
     (if isMesh c \<and> \<not> isLabel c then
        c\<lparr> material := (if truthy hid \<and> compId c = hid then Some (highlightMat Readme)
                         else orig_or_current om i c) \<rparr>
      else c)"

fun highlight_pass ::
  "variant \<Rightarrow> string option \<Rightarrow> (nat \<Rightarrow> material option) \<Rightarrow> object3d list \<Rightarrow> object3d list"
where
  "highlight_pass Jsx hid om objs = traverse_map (highlight_visit_jsx hid om) 0 objs"
| "highlight_pass Readme hid om objs = traverse_map (highlight_visit_readme hid om) 0 objs"

text \<open>
  The intensity the coil pulse writes for a mesh at time \<open>t\<close>:
  \<^verbatim>\<open>const ph = (c.position.y + c.position.z) * 25; 0.2 + Math.sin(timeRef.current * 25 + ph) * 0.25\<close>
  in \<^verbatim>\<open>src/sew_predictive.jsx\<close> and
  \<^verbatim>\<open>const a = Math.atan2(c.position.x, c.position.y); 0.14 + Math.sin(timeRef.current*18 + a*3)*0.22\<close>
  in \<^verbatim>\<open>src/README.md\<close>.
\<close>

fun pulse_value :: "variant \<Rightarrow> real \<Rightarrow> object3d \<Rightarrow> real" where
  "pulse_value Jsx t c =
     (let ph = (position_y c + position_z c) * 25
      in 0.2 + sin (t * 25 + ph) * 0.25)"
| "pulse_value Readme t c =
     (let a = atan2 (position_x c) (position_y c)
      in 0.14 + sin (t * 18 + a * 3) * 0.22)"

text \<open>
  The test of the coil pulse:
  \<^verbatim>\<open>c.isMesh && c.userData.compId === "stator_winding" && origMats.get(c)\<close> in
  \<^verbatim>\<open>src/sew_predictive.jsx\<close>, and with \<^verbatim>\<open>origMats.get(c) === mCoil\<close> in \<^verbatim>\<open>src/README.md\<close>.
\<close>

fun pulse_guard :: "variant \<Rightarrow> (nat \<Rightarrow> material option) \<Rightarrow> nat \<Rightarrow> object3d \<Rightarrow> bool" where
  "pulse_guard Jsx om i c =
     (isMesh c \<and> compId c = Some ''stator_winding'' \<and> om i \<noteq> None)"
| "pulse_guard Readme om i c =
     (isMesh c \<and> compId c = Some ''stator_winding'' \<and> om i = Some (Mat ''mCoil''))"

text \<open>The coil-pulse callback: \<^verbatim>\<open>origMats.get(c).emissiveIntensity = ...\<close>\<close>

definition pulse_visit ::
  "variant \<Rightarrow> real \<Rightarrow> (nat \<Rightarrow> material option) \<Rightarrow> nat \<Rightarrow> object3d \<Rightarrow>
     (material \<Rightarrow> real) \<Rightarrow> (material \<Rightarrow> real)"
where
  "pulse_visit v t om i c em =
     (if pulse_guard v om i c then
        (case om i of Some m \<Rightarrow> em(m := pulse_value v t c) | None \<Rightarrow> em)
      else em)"

definition coil_pulse ::
  "variant \<Rightarrow> real \<Rightarrow> (nat \<Rightarrow> material option) \<Rightarrow> object3d list \<Rightarrow>
     (material \<Rightarrow> real) \<Rightarrow> (material \<Rightarrow> real)"
where
  "coil_pulse v t om objs em = traverse_fold (pulse_visit v t om) 0 objs em"

text \<open>
  One run of \<^verbatim>\<open>animate\<close>, with the time step as a parameter. \<open>hid\<close> is the value of the
  highlight ref when the frame runs. Only the program in \<^verbatim>\<open>src/README.md\<close> assigns to
  \<^verbatim>\<open>fanG.rotation.z\<close> and to the ball groups.
\<close>

fun advance :: "variant \<Rightarrow> real \<Rightarrow> string option \<Rightarrow> viewer \<Rightarrow> viewer" where
  "advance Jsx dt hid st =
     (let t = timeRef st + dt;
          objs = highlight_pass Jsx hid (origMats st) (motor st);
          em = coil_pulse Jsx t (origMats st) objs (emissiveIntensity st)
      in st\<lparr> timeRef := t,
             rotorG_rotation_z := t * ((1740 / 60) * pi * 2),
             motor := objs,
             emissiveIntensity := em \<rparr>)"
| "advance Readme dt hid st =
     (let t = timeRef st + dt;
          objs = highlight_pass Readme hid (origMats st) (motor st);
          em = coil_pulse Readme t (origMats st) objs (emissiveIntensity st)
      in st\<lparr> timeRef := t,
             rotorG_rotation_z := t * angV,
             fanG_rotation_z := t * angV,
             bbGroups_rotation_z := t * angV * 0.44,
             motor := objs,
             emissiveIntensity := em \<rparr>)"

text \<open>\<^verbatim>\<open>timeRef.current += 0.016;\<close>\<close>

definition animate :: "variant \<Rightarrow> string option \<Rightarrow> viewer \<Rightarrow> viewer" where
  "animate v hid st = advance v 0.016 hid st"

text \<open>The frames of a run, one for each value the highlight ref has when a frame starts.\<close>

definition frames :: "variant \<Rightarrow> string option list \<Rightarrow> viewer" where
  "frames v hids = fold (animate v) hids (mount v)"

text \<open>
  The groups of the scene graph and their parents: \<^verbatim>\<open>motor.add(statorG)\<close>,
  \<^verbatim>\<open>motor.add(rotorG)\<close> and, in both variants, \<^verbatim>\<open>rotorG.add(fanG)\<close>. The library composes
  the transform of a node with that of its parent; every rotation here is about the z
  axis, and fanG is moved along that axis only, so the angle of a group in world space is
  the sum of the \<^verbatim>\<open>rotation.z\<close> from the group up to the root.
\<close>

datatype group_node = MotorGroup | StatorG | RotorG | FanG

fun parent :: "group_node \<Rightarrow> group_node option" where
  "parent MotorGroup = None"
| "parent StatorG = Some MotorGroup"
| "parent RotorG = Some MotorGroup"
| "parent FanG = Some RotorG"

fun rotation_z :: "viewer \<Rightarrow> group_node \<Rightarrow> real" where
  "rotation_z st MotorGroup = 0"
| "rotation_z st StatorG = 0"
| "rotation_z st RotorG = rotorG_rotation_z st"
| "rotation_z st FanG = fanG_rotation_z st"

fun depth :: "group_node \<Rightarrow> nat" where
  "depth MotorGroup = 0"
| "depth StatorG = 1"
| "depth RotorG = 1"
| "depth FanG = 2"

function world_rotation_z :: "viewer \<Rightarrow> group_node \<Rightarrow> real" where
  "world_rotation_z st g =
     (case parent g of
        None \<Rightarrow> rotation_z st g
      | Some p \<Rightarrow> world_rotation_z st p + rotation_z st g)"
  by pat_completeness auto
termination
  by (relation "measure (\<lambda>(st, g). depth g)") (auto elim: parent.elims)

text \<open>Two angles are the same position when they differ by a whole number of turns.\<close>

definition same_position :: "real \<Rightarrow> real \<Rightarrow> bool" where
  "same_position a b = (\<exists>k::int. a - b = 2 * pi * real_of_int k)"

section \<open>Invariants\<close>

text \<open>What the clamps of the orbit handlers keep true of the camera's spherical state.\<close>

definition orbit_inv :: "variant \<Rightarrow> orbit \<Rightarrow> bool" where
  "orbit_inv v ob \<longleftrightarrow>
     zoom_min v \<le> radius (sph ob) \<and> radius (sph ob) \<le> zoom_max v \<and>
     0.15 \<le> phi (sph ob) \<and> phi (sph ob) \<le> pi - 0.15"

text \<open>
  What the scene construction gives every mesh: a material, no label flag, and a component
  id that is a non-empty string.
\<close>

definition mesh_ok :: "object3d \<Rightarrow> bool" where
  "mesh_ok c \<longleftrightarrow> \<not> isMesh c \<or> (material c \<noteq> None \<and> \<not> isLabel c \<and> compId c \<noteq> None \<and> compId c \<noteq> Some [])"

text \<open>A node without its material: what the frame callback never changes.\<close>

definition shape :: "object3d \<Rightarrow> object3d" where
  "shape c = c\<lparr> material := None \<rparr>"

text \<open>
  In both scenes the meshes that pass the coil pulse's test share one material. The last
  of them in traversal order is the last stator coil in \<^verbatim>\<open>src/sew_predictive.jsx\<close> and the
  last copper end-turn in \<^verbatim>\<open>src/README.md\<close>.
\<close>

fun last_coil :: "variant \<Rightarrow> nat" where
  "last_coil Jsx = 68"
| "last_coil Readme = 128"

fun coil_material :: "variant \<Rightarrow> material" where
  "coil_material Jsx = Mat ''coilMat''"
| "coil_material Readme = Mat ''mCoil''"

section \<open>Auxiliary facts\<close>

lemma cos_lower_quadratic: "1 - x\<^sup>2 / 2 \<le> cos (x::real)"
proof -
  have "\<bar>sin (x / 2)\<bar> \<le> \<bar>x / 2\<bar>"
    by (rule abs_sin_x_le_abs_x)
  then have "(sin (x / 2))\<^sup>2 \<le> (x / 2)\<^sup>2"
    by (simp only: abs_le_square_iff)
  moreover have "cos x = 1 - 2 * (sin (x / 2))\<^sup>2"
    using cos_double_sin [of "x / 2"] by simp
  ultimately show ?thesis
    by (simp add: power2_eq_square)
qed

lemma frames_snoc: "frames v (hids @ [hid]) = animate v hid (frames v hids)"
  by (simp add: frames_def)

lemma timeRef_frames: "timeRef (frames v hids) = 0.016 * real (length hids)"
proof (induction hids rule: rev_induct)
  case Nil
  show ?case by (simp add: frames_def mount_def)
next
  case (snoc hid hids)
  have "timeRef (animate v hid (frames v hids)) = timeRef (frames v hids) + 0.016"
    by (cases v) (simp_all add: animate_def Let_def)
  with snoc show ?case
    by (simp add: frames_snoc algebra_simps)
qed

lemma rotation_frames_jsx:
  "rotorG_rotation_z (frames Jsx hids) = rotor_angle (timeRef (frames Jsx hids)) \<and>
   fanG_rotation_z (frames Jsx hids) = 0"
proof (induction hids rule: rev_induct)
  case Nil
  show ?case by (simp add: frames_def mount_def rotor_angle_def)
next
  case (snoc hid hids)
  then show ?case
    by (simp add: frames_snoc animate_def Let_def rotor_angle_def angV_def)
qed

lemma rotation_frames_readme:
  "rotorG_rotation_z (frames Readme hids) = rotor_angle (timeRef (frames Readme hids)) \<and>
   fanG_rotation_z (frames Readme hids) = rotor_angle (timeRef (frames Readme hids))"
proof (induction hids rule: rev_induct)
  case Nil
  show ?case by (simp add: frames_def mount_def rotor_angle_def)
next
  case (snoc hid hids)
  then show ?case
    by (simp add: frames_snoc animate_def Let_def rotor_angle_def)
qed


lemma mesh_ok_Mesh: "cid \<noteq> [] \<Longrightarrow> mesh_ok (Mesh m cid pos)"
  by (cases pos) (simp add: mesh_ok_def Mesh_def)

lemma mesh_ok_Group: "mesh_ok (Group pos)"
  by (cases pos) (simp add: mesh_ok_def Group_def)

lemma mesh_ok_Line: "mesh_ok (Line m)"
  by (simp add: mesh_ok_def Line_def)

lemma build_jsx_ok: "\<forall>c \<in> set build_jsx. mesh_ok c"
  unfolding build_jsx_def Let_def
  by (auto simp: mesh_ok_Mesh mesh_ok_Group)

lemma build_readme_ok: "\<forall>c \<in> set build_readme. mesh_ok c"
  unfolding build_readme_def Let_def
  by (auto simp: mesh_ok_Mesh mesh_ok_Group mesh_ok_Line)

lemma build_ok: "c \<in> set (build v) \<Longrightarrow> mesh_ok c"
  using build_jsx_ok build_readme_ok by (cases v) simp_all

lemma length_traverse_map [simp]: "length (traverse_map f i cs) = length cs"
  by (induction cs arbitrary: i) simp_all

lemma nth_traverse_map:
  "j < length cs \<Longrightarrow> traverse_map f i cs ! j = f (i + j) (cs ! j)"
proof (induction cs arbitrary: i j)
  case Nil
  then show ?case by simp
next
  case (Cons c cs)
  then show ?case by (cases j) simp_all
qed

lemma traverse_fold_origMats:
  "traverse_fold origMats_set i cs om k =
     (if i \<le> k \<and> k < i + length cs \<and> isMesh (cs ! (k - i)) then material (cs ! (k - i))
      else om k)"
proof (induction cs arbitrary: i om)
  case Nil
  show ?case by auto
next
  case (Cons c cs)
  have step: "traverse_fold origMats_set i (c # cs) om k =
      (if Suc i \<le> k \<and> k < Suc i + length cs \<and> isMesh (cs ! (k - Suc i))
       then material (cs ! (k - Suc i))
       else origMats_set i c om k)"
    by (simp only: traverse_fold.simps Cons.IH)
  show ?case
  proof (cases "k = i")
    case True
    have "origMats_set i c om k = (if isMesh c then material c else om k)"
      using True by (simp add: origMats_set_def)
    with step True show ?thesis
      by simp
  next
    case False
    have o: "origMats_set i c om k = om k"
      using False by (simp add: origMats_set_def)
    show ?thesis
    proof (cases "i \<le> k")
      case True
      with False have "(c # cs) ! (k - i) = cs ! (k - Suc i)" "Suc i \<le> k"
        by (simp_all add: Suc_diff_le)
      then show ?thesis
        unfolding step o using True by auto
    next
      case False
      then show ?thesis
        unfolding step o by auto
    qed
  qed
qed

lemma store_origMats_nth:
  "store_origMats objs k =
     (if k < length objs \<and> isMesh (objs ! k) then material (objs ! k) else None)"
  by (simp add: store_origMats_def traverse_fold_origMats)

lemma shape_highlight_visit:
  "shape (highlight_visit_jsx hid om i c) = shape c"
  "shape (highlight_visit_readme hid om i c) = shape c"
  by (simp_all add: shape_def highlight_visit_jsx_def highlight_visit_readme_def)

lemma shape_highlight_pass: "map shape (highlight_pass v hid om objs) = map shape objs"
  by (cases v) (auto intro!: nth_equalityI simp: nth_traverse_map shape_highlight_visit)

lemma animate_fields:
  "motor (animate v hid st) = highlight_pass v hid (origMats st) (motor st)"
  "origMats (animate v hid st) = origMats st"
  by (cases v; simp add: animate_def Let_def)+

lemma frames_invariant:
  "map shape (motor (frames v hids)) = map shape (build v) \<and>
   origMats (frames v hids) = store_origMats (build v)"
proof (induction hids rule: rev_induct)
  case Nil
  show ?case by (simp add: frames_def mount_def)
next
  case (snoc hid hids)
  then show ?case
    by (simp add: frames_def animate_fields shape_highlight_pass)
qed

lemma shape_nth:
  assumes "map shape xs = map shape ys" and "j < length xs"
  shows "isMesh (xs ! j) = isMesh (ys ! j)" and "compId (xs ! j) = compId (ys ! j)"
    and "isLabel (xs ! j) = isLabel (ys ! j)"
proof -
  from assms have l: "length xs = length ys"
    using map_eq_imp_length_eq by blast
  from assms have "map shape xs ! j = map shape ys ! j"
    by simp
  with assms(2) l have s: "shape (xs ! j) = shape (ys ! j)"
    by simp
  have f: "isMesh (shape c) = isMesh c" "compId (shape c) = compId c"
    "isLabel (shape c) = isLabel c" for c
    by (simp_all add: shape_def)
  show "isMesh (xs ! j) = isMesh (ys ! j)" using s f(1) by metis
  show "compId (xs ! j) = compId (ys ! j)" using s f(2) by metis
  show "isLabel (xs ! j) = isLabel (ys ! j)" using s f(3) by metis
qed

lemma frames_mesh:
  assumes "j < length (motor (frames v hids))" and "isMesh (motor (frames v hids) ! j)"
  shows "j < length (build v)" and "isMesh (build v ! j)"
    and "compId (motor (frames v hids) ! j) = compId (build v ! j)"
    and "isLabel (motor (frames v hids) ! j) = isLabel (build v ! j)"
    and "mesh_ok (build v ! j)"
    and "origMats (frames v hids) j = material (build v ! j)"
proof -
  note inv = frames_invariant [of v hids]
  from inv have l: "length (motor (frames v hids)) = length (build v)"
    using map_eq_imp_length_eq by blast
  with assms(1) show j: "j < length (build v)"
    by simp
  note sh = shape_nth [OF inv [THEN conjunct1] assms(1)]
  from sh(1) assms(2) show m: "isMesh (build v ! j)"
    by simp
  show "compId (motor (frames v hids) ! j) = compId (build v ! j)"
    by (rule sh(2))
  show "isLabel (motor (frames v hids) ! j) = isLabel (build v ! j)"
    by (rule sh(3))
  show "mesh_ok (build v ! j)"
    by (rule build_ok [OF nth_mem [OF j]])
  show "origMats (frames v hids) j = material (build v ! j)"
    using inv j m by (simp add: store_origMats_nth)
qed

lemma frames_node:
  assumes "j < length (build v)"
  shows "j < length (motor (frames v hids))"
    and "isMesh (motor (frames v hids) ! j) = isMesh (build v ! j)"
    and "compId (motor (frames v hids) ! j) = compId (build v ! j)"
    and "origMats (frames v hids) j = (if isMesh (build v ! j) then material (build v ! j) else None)"
proof -
  note inv = frames_invariant [of v hids]
  from inv have l: "length (motor (frames v hids)) = length (build v)"
    using map_eq_imp_length_eq by blast
  with assms show j: "j < length (motor (frames v hids))"
    by simp
  note sh = shape_nth [OF inv [THEN conjunct1] j]
  show "isMesh (motor (frames v hids) ! j) = isMesh (build v ! j)"
    by (rule sh(1))
  show "compId (motor (frames v hids) ! j) = compId (build v ! j)"
    by (rule sh(2))
  show "origMats (frames v hids) j = (if isMesh (build v ! j) then material (build v ! j) else None)"
    using inv assms by (simp add: store_origMats_nth)
qed

lemma animate_frames: "animate v s (frames v hids) = frames v (hids @ [s])"
  by (simp add: frames_def)

lemma build_jsx_2: "build_jsx ! 2 = Mesh (Mat ''housing'') ''housing'' (0, 0, 0)"
  by (simp add: build_jsx_def Let_def)

lemma build_jsx_33:
  "build_jsx ! 33 = Mesh (Mat ''coilMat'') ''stator_winding'' (0, cos 0 * (0.090 - 0.008), sin 0 * (0.090 - 0.008))"
  by (simp add: build_jsx_def Let_def nth_append del: upt_Suc)

lemma length_build_jsx: "length build_jsx = 123"
  by (simp add: build_jsx_def Let_def del: upt_Suc)

lemma length_build_readme: "length build_readme = 262"
  by (simp add: build_readme_def Let_def length_concat comp_def sum_list_triv del: upt_Suc)

lemma build_readme_2: "build_readme ! 2 = Mesh (Mat ''mHousing'') ''housing'' (0, 0, 0)"
  by (simp add: build_readme_def Let_def)

section \<open>The partial cylinder: counts and normals\<close>

lemma fold_ring_length:
  "length (fst (fold (ring_body r h a0 a1 n) is acc)) = length (fst acc) + 6 * length is"
  "length (snd (fold (ring_body r h a0 a1 n) is acc)) = length (snd acc) + 6 * length is"
  by (induction "is" arbitrary: acc) (simp_all add: ring_body_def Let_def)

lemma fold_quad_length:
  "length (fold quad_body is acc) = length acc + 6 * length is"
  by (induction "is" arbitrary: acc) (simp_all add: quad_body_def Let_def)

lemma fold_ring_snd:
  "snd (fold (ring_body r h a0 a1 n) is acc) =
     snd acc @ concat (map (\<lambda>i. [sin (sample_angle a0 a1 n i), cos (sample_angle a0 a1 n i), 0,
                                   sin (sample_angle a0 a1 n i), cos (sample_angle a0 a1 n i), 0]) is)"
  by (induction "is" arbitrary: acc) (simp_all add: ring_body_def Let_def)

lemma concat_blocks_nth:
  assumes "\<And>i. length (f i) = k" and "i < n" and "m < k"
  shows "concat (map f [0..<n]) ! (k * i + m) = f i ! m"
  using assms(2)
proof (induction n)
  case 0
  then show ?case by simp
next
  case (Suc n)
  have len: "length (concat (map f [0..<n])) = k * n"
    by (induction n) (simp_all add: assms(1))
  show ?case
  proof (cases "i < n")
    case True
    then have "k * i + m < k * n"
      using assms(3)
      by (metis Suc_leI add.commute mult_Suc_right mult_le_mono2 nat_add_left_cancel_less order_less_le_trans)
    with True Suc.IH show ?thesis by (simp add: nth_append len)
  next
    case False
    with Suc.prems have "i = n" by simp
    then show ?thesis using assms(3) by (simp add: nth_append len)
  qed
qed


lemma normal_attr_partialCylinder:
  "normal_attr (partialCylinder r h a0 a1 n) =
     concat (map (\<lambda>i. [sin (sample_angle a0 a1 n i), cos (sample_angle a0 a1 n i), 0,
                        sin (sample_angle a0 a1 n i), cos (sample_angle a0 a1 n i), 0]) [0..<Suc n])"
  by (simp only: partialCylinder_def Let_def buffer_geometry.simps fold_ring_snd snd_conv append_Nil)

lemma normal_at_partialCylinder:
  assumes "j < 2 * (n + 1)"
  shows "normal_at (partialCylinder r h a0 a1 n) j =
           (sin (sample_angle a0 a1 n (j div 2)), cos (sample_angle a0 a1 n (j div 2)), 0)"
proof -
  let ?f = "\<lambda>i. [sin (sample_angle a0 a1 n i), cos (sample_angle a0 a1 n i), 0,
                  sin (sample_angle a0 a1 n i), cos (sample_angle a0 a1 n i), 0]"
  let ?ns = "concat (map ?f [0..<Suc n])"
  have i: "j div 2 < Suc n" using assms by simp
  have nth: "\<And>m. m < 6 \<Longrightarrow> ?ns ! (6 * (j div 2) + m) = ?f (j div 2) ! m"
    by (rule concat_blocks_nth [where f = ?f and k = 6, OF _ i]) simp_all
  consider (even) "j = 2 * (j div 2)" | (odd) "j = 2 * (j div 2) + 1"
    by arith
  then have "?ns ! (3 * j) = sin (sample_angle a0 a1 n (j div 2)) \<and>
             ?ns ! (3 * j + 1) = cos (sample_angle a0 a1 n (j div 2)) \<and>
             ?ns ! (3 * j + 2) = 0"
  proof cases
    case even
    then have e: "3 * j = 6 * (j div 2) + 0" "3 * j + 1 = 6 * (j div 2) + 1"
      "3 * j + 2 = 6 * (j div 2) + 2"
      by arith+
    have "?ns ! (3 * j) = ?f (j div 2) ! 0" by (subst e(1), rule nth) simp
    moreover have "?ns ! (3 * j + 1) = ?f (j div 2) ! 1" by (subst e(2), rule nth) simp
    moreover have "?ns ! (3 * j + 2) = ?f (j div 2) ! 2" by (subst e(3), rule nth) simp
    ultimately show ?thesis by (simp del: upt_Suc)
  next
    case odd
    then have e: "3 * j = 6 * (j div 2) + 3" "3 * j + 1 = 6 * (j div 2) + 4"
      "3 * j + 2 = 6 * (j div 2) + 5"
      by arith+
    have "?ns ! (3 * j) = ?f (j div 2) ! 3" by (subst e(1), rule nth) simp
    moreover have "?ns ! (3 * j + 1) = ?f (j div 2) ! 4" by (subst e(2), rule nth) simp
    moreover have "?ns ! (3 * j + 2) = ?f (j div 2) ! 5" by (subst e(3), rule nth) simp
    ultimately show ?thesis by (simp del: upt_Suc)
  qed
  then show ?thesis
    unfolding normal_at_def normal_attr_partialCylinder by (simp del: upt_Suc)
qed

text \<open>
  C1. For a0 < a1 and segments \<ge> 1 the builder's geometry has 2 * (segments + 1) vertices
  and 2 * segments triangles, and the normal of vertex j is the radial unit vector
  (sin a, cos a, 0) at the sample angle a of its ring position j div 2; its squared length
  is 1.
\<close>

theorem partialCylinder_counts_normals:
  assumes "a0 < a1" and "1 \<le> segments"
  shows "vertex_count (partialCylinder rad height a0 a1 segments) = 2 * (segments + 1) \<and>
         triangle_count (partialCylinder rad height a0 a1 segments) = 2 * segments \<and>
         (\<forall>j < 2 * (segments + 1).
            normal_at (partialCylinder rad height a0 a1 segments) j =
              (sin (sample_angle a0 a1 segments (j div 2)),
               cos (sample_angle a0 a1 segments (j div 2)), 0) \<and>
            sq_norm (normal_at (partialCylinder rad height a0 a1 segments) j) = 1)"
proof (intro conjI allI impI)
  show "vertex_count (partialCylinder rad height a0 a1 segments) = 2 * (segments + 1)"
    by (simp add: vertex_count_def partialCylinder_def Let_def fold_ring_length del: upt_Suc)
  show "triangle_count (partialCylinder rad height a0 a1 segments) = 2 * segments"
    by (simp add: triangle_count_def partialCylinder_def Let_def fold_quad_length)
next
  fix j assume j: "j < 2 * (segments + 1)"
  show n: "normal_at (partialCylinder rad height a0 a1 segments) j =
              (sin (sample_angle a0 a1 segments (j div 2)),
               cos (sample_angle a0 a1 segments (j div 2)), 0)"
    by (rule normal_at_partialCylinder [OF j])
  show "sq_norm (normal_at (partialCylinder rad height a0 a1 segments) j) = 1"
    unfolding n by (simp add: sq_norm_def power2_eq_square [symmetric])
qed

text \<open>The housing barrel: 98 vertices, 96 triangles, and the normal of the last vertex.\<close>

theorem partialCylinder_counts_normals_witness:
  "SOLID_START CUT_START CUT_END < SOLID_END CUT_START CUT_END \<and> (1::nat) \<le> 48 \<and>
   vertex_count housingGeo = 98 \<and>
   triangle_count housingGeo = 96 \<and>
   normal_at housingGeo 97 =
     (sin (SOLID_END CUT_START CUT_END), cos (SOLID_END CUT_START CUT_END), 0) \<and>
   sq_norm (normal_at housingGeo 97) = 1"
proof -
  let ?a0 = "SOLID_START CUT_START CUT_END" and ?a1 = "SOLID_END CUT_START CUT_END"
  have h1: "?a0 < ?a1"
    unfolding SOLID_START_def SOLID_END_def CUT_START_def CUT_END_def
    using pi_gt_zero by linarith
  have h2: "(1::nat) \<le> 48"
    by simp
  note t = partialCylinder_counts_normals [OF h1 h2, where rad = "0.088" and height = "0.230",
      folded housingGeo_def]
  have s: "sample_angle ?a0 ?a1 48 (97 div 2) = ?a1"
    by (simp add: sample_angle_def)
  have c: "vertex_count housingGeo = 98 \<and> triangle_count housingGeo = 96"
    using t by simp
  have "normal_at housingGeo 97 =
        (sin (sample_angle ?a0 ?a1 48 (97 div 2)), cos (sample_angle ?a0 ?a1 48 (97 div 2)), 0) \<and>
      sq_norm (normal_at housingGeo 97) = 1"
    by (rule t [THEN conjunct2, THEN conjunct2, rule_format]) simp
  then have n: "normal_at housingGeo 97 = (sin ?a1, cos ?a1, 0) \<and>
      sq_norm (normal_at housingGeo 97) = 1"
    unfolding s .
  from h1 h2 c n show ?thesis by blast
qed

section \<open>Rotation of the rotor\<close>

text \<open>Bounds on \<open>pi\<close> from the Taylor expansion of the cosine, for the decimal value.\<close>

lemma cos_taylor_10:
  fixes x :: real
  assumes "0 < x"
  shows "\<bar>cos x - (1 - x^2 / 2 + x^4 / 24 - x^6 / 720 + x^8 / 40320)\<bar> \<le> x^10 / 3628800"
proof -
  obtain t where t: "cos x = (\<Sum>m<10. cos_coeff m * x ^ m) + (cos (t + 1/2 * real (10::nat) * pi) / fact 10) * x ^ 10"
    using Maclaurin_cos_expansion2 [OF assms, of 10] by auto
  have e: "(\<Sum>m<10. g m) = g 0 + g 1 + g 2 + g 3 + g 4 + g 5 + g 6 + g 7 + g 8 + g 9"
    for g :: "nat \<Rightarrow> real"
    by (simp add: numeral_eq_Suc)
  have c: "cos_coeff 0 = 1" "cos_coeff 1 = 0" "cos_coeff 2 = - 1 / 2" "cos_coeff 3 = 0"
    "cos_coeff 4 = 1 / 24" "cos_coeff 5 = 0" "cos_coeff 6 = - 1 / 720" "cos_coeff 7 = 0"
    "cos_coeff 8 = 1 / 40320" "cos_coeff 9 = 0"
    by (simp_all add: cos_coeff_def fact_numeral)
  have s: "(\<Sum>m<10. cos_coeff m * x ^ m) = 1 - x^2 / 2 + x^4 / 24 - x^6 / 720 + x^8 / 40320"
    unfolding e c by simp
  have f: "fact 10 = (3628800::real)"
    by (simp add: fact_numeral)
  have "\<bar>cos (t + 1/2 * real (10::nat) * pi)\<bar> \<le> 1"
    by (rule abs_cos_le_one)
  then have "\<bar>cos (t + 1/2 * real (10::nat) * pi) / 3628800 * x ^ 10\<bar> \<le> 1 / 3628800 * x ^ 10"
    using assms by (simp add: abs_mult divide_le_eq mult_right_mono)
  then show ?thesis
    unfolding t s f by simp
qed

lemma pi_lower: "3.1414 < pi"
proof -
  let ?x = "15707 / 10000 :: real"
  have "\<bar>cos ?x - (1 - ?x^2 / 2 + ?x^4 / 24 - ?x^6 / 720 + ?x^8 / 40320)\<bar> \<le> ?x^10 / 3628800"
    by (rule cos_taylor_10) simp
  then have "(1 - ?x^2 / 2 + ?x^4 / 24 - ?x^6 / 720 + ?x^8 / 40320) - ?x^10 / 3628800 \<le> cos ?x"
    by linarith
  moreover have "0 < (1 - ?x^2 / 2 + ?x^4 / 24 - ?x^6 / 720 + ?x^8 / 40320) - ?x^10 / 3628800"
    by (simp add: power_divide)
  ultimately have pos: "0 < cos ?x"
    by linarith
  have "?x < pi / 2"
  proof (rule ccontr)
    assume "\<not> ?x < pi / 2"
    then have "pi / 2 \<le> ?x"
      by simp
    moreover have "?x \<le> pi"
      using pi_ge_two by simp
    ultimately have "cos ?x \<le> cos (pi / 2)"
      by (intro cos_monotone_0_pi_le) simp_all
    with pos show False
      by simp
  qed
  then show ?thesis
    by simp
qed

lemma pi_upper: "pi < 3.1430"
proof -
  let ?x = "15715 / 10000 :: real"
  have "\<bar>cos ?x - (1 - ?x^2 / 2 + ?x^4 / 24 - ?x^6 / 720 + ?x^8 / 40320)\<bar> \<le> ?x^10 / 3628800"
    by (rule cos_taylor_10) simp
  then have "cos ?x \<le> (1 - ?x^2 / 2 + ?x^4 / 24 - ?x^6 / 720 + ?x^8 / 40320) + ?x^10 / 3628800"
    by linarith
  moreover have "(1 - ?x^2 / 2 + ?x^4 / 24 - ?x^6 / 720 + ?x^8 / 40320) + ?x^10 / 3628800 < 0"
    by (simp add: power_divide)
  ultimately have neg: "cos ?x < 0"
    by linarith
  have "pi / 2 < ?x"
  proof (rule ccontr)
    assume "\<not> pi / 2 < ?x"
    then have "?x \<le> pi / 2"
      by simp
    then have "0 \<le> cos ?x"
      by (intro cos_ge_zero) simp_all
    with neg show False
      by simp
  qed
  then show ?thesis
    by simp
qed

text \<open>
  C2. A frame that advances the accumulated time by dt sets the rotor's rotation.z to
  (t + dt) * (1740 / 60) * 2 * pi; in every run the rotation is the accumulated time times
  that rate, so a frame increases it by exactly dt * (1740 / 60) * 2 * pi, hence also
  modulo whole turns; at accumulated time 1 the angle is 1740 / 60 * 2 * pi = 29 * 2 * pi,
  between 182.2 and 182.3, and 29 whole turns.
\<close>

theorem rotor_rotation_consistency:
  "timeRef (advance v dt hid st) = timeRef st + dt \<and>
   rotorG_rotation_z (advance v dt hid st) = rotor_angle (timeRef st + dt) \<and>
   rotorG_rotation_z (frames v hids) = rotor_angle (timeRef (frames v hids)) \<and>
   rotorG_rotation_z (advance v dt hid (frames v hids)) - rotorG_rotation_z (frames v hids) =
     dt * (1740 / 60) * 2 * pi \<and>
   rotor_angle (t + dt) - rotor_angle t = dt * (1740 / 60) * 2 * pi \<and>
   same_position (rotor_angle (t + dt)) (rotor_angle t + dt * (1740 / 60) * 2 * pi) \<and>
   rotor_angle 1 = 1740 / 60 * 2 * pi \<and>
   rotor_angle 1 = 29 * 2 * pi \<and>
   182.2 < rotor_angle 1 \<and> rotor_angle 1 < 182.3 \<and>
   same_position (rotor_angle 1) 0"
proof (intro conjI)
  show "timeRef (advance v dt hid st) = timeRef st + dt"
    by (cases v) (simp_all add: Let_def)
  show a: "rotorG_rotation_z (advance v dt hid st) = rotor_angle (timeRef st + dt)" for st
    by (cases v) (simp_all add: Let_def rotor_angle_def angV_def)
  show f: "rotorG_rotation_z (frames v hids) = rotor_angle (timeRef (frames v hids))"
    using rotation_frames_jsx [of hids] rotation_frames_readme [of hids] by (cases v) simp_all
  show "rotorG_rotation_z (advance v dt hid (frames v hids)) - rotorG_rotation_z (frames v hids) =
      dt * (1740 / 60) * 2 * pi"
    unfolding a f by (simp add: rotor_angle_def angV_def algebra_simps)
  show d: "rotor_angle (t + dt) - rotor_angle t = dt * (1740 / 60) * 2 * pi"
    by (simp add: rotor_angle_def angV_def algebra_simps)
  have "rotor_angle (t + dt) - (rotor_angle t + dt * (1740 / 60) * 2 * pi) = 2 * pi * real_of_int 0"
    using d by simp
  then show "same_position (rotor_angle (t + dt)) (rotor_angle t + dt * (1740 / 60) * 2 * pi)"
    unfolding same_position_def by (rule exI)
  show "rotor_angle 1 = 1740 / 60 * 2 * pi"
    by (simp add: rotor_angle_def angV_def)
  show "rotor_angle 1 = 29 * 2 * pi"
    by (simp add: rotor_angle_def angV_def)
  show "182.2 < rotor_angle 1" "rotor_angle 1 < 182.3"
    using pi_lower pi_upper by (simp_all add: rotor_angle_def angV_def)
  have "rotor_angle 1 - 0 = 2 * pi * real_of_int 29"
    by (simp add: rotor_angle_def angV_def)
  then show "same_position (rotor_angle 1) 0"
    unfolding same_position_def by (rule exI)
qed
section \<open>The highlight pass\<close>

text \<open>
  C3. After a frame's highlight pass with selection s, whatever frames ran before, every
  mesh of the motor group whose component id is s (s not null) has the highlight
  material, and every other mesh has the material it was built with.
\<close>

theorem highlight_pass_result:
  "\<forall>j < length (motor (animate v s (frames v hids))).
     isMesh (motor (animate v s (frames v hids)) ! j) \<longrightarrow>
       material (motor (animate v s (frames v hids)) ! j) =
         (if s \<noteq> None \<and> compId (motor (animate v s (frames v hids)) ! j) = s
          then Some (highlightMat v)
          else material (build v ! j))"
proof (intro allI impI)
  fix j
  let ?st = "frames v hids"
  let ?c = "motor ?st ! j"
  assume "j < length (motor (animate v s ?st))"
  then have j: "j < length (motor ?st)"
    by (cases v) (simp_all add: animate_fields)
  have n: "motor (animate v s ?st) ! j =
      (case v of Jsx \<Rightarrow> highlight_visit_jsx s (origMats ?st) j ?c
               | Readme \<Rightarrow> highlight_visit_readme s (origMats ?st) j ?c)"
    using j by (cases v) (simp_all add: animate_fields nth_traverse_map)
  assume "isMesh (motor (animate v s ?st) ! j)"
  then have m: "isMesh ?c"
    unfolding n
    by (cases v) (simp_all add: highlight_visit_jsx_def highlight_visit_readme_def split: if_splits)
  note f = frames_mesh [OF j m]
  from f(2) f(5) have ok: "material (build v ! j) \<noteq> None" "\<not> isLabel (build v ! j)"
    "compId (build v ! j) \<noteq> Some []"
    by (simp_all add: mesh_ok_def)
  have t: "truthy s \<and> compId ?c = s \<longleftrightarrow> s \<noteq> None \<and> compId ?c = s"
    using ok(3) unfolding f(3) by (cases s) (auto simp: truthy_def)
  have o: "orig_or_current (origMats ?st) j ?c = material (build v ! j)"
    using ok(1) by (auto simp: orig_or_current_def f(6))
  have l: "\<not> isLabel ?c"
    using ok(2) f(4) by simp
  show "material (motor (animate v s ?st) ! j) =
         (if s \<noteq> None \<and> compId (motor (animate v s ?st) ! j) = s
          then Some (highlightMat v)
          else material (build v ! j))"
    unfolding n using m l t o
    by (cases v) (simp_all add: highlight_visit_jsx_def highlight_visit_readme_def)
qed

text \<open>
  The housing barrel after a first frame with the housing selected, and a stator coil
  that was highlighted in the frame before and is restored.
\<close>

theorem highlight_pass_result_witness:
  "2 < length (motor (animate Jsx (Some ''housing'') (frames Jsx []))) \<and>
   isMesh (motor (animate Jsx (Some ''housing'') (frames Jsx [])) ! 2) \<and>
   material (motor (animate Jsx (Some ''housing'') (frames Jsx [])) ! 2) = Some (Mat ''highlightMat'') \<and>
   33 < length (motor (animate Jsx (Some ''housing'') (frames Jsx [Some ''stator_winding'']))) \<and>
   isMesh (motor (animate Jsx (Some ''housing'') (frames Jsx [Some ''stator_winding''])) ! 33) \<and>
   material (motor (animate Jsx (Some ''housing'') (frames Jsx [Some ''stator_winding''])) ! 33) =
     Some (Mat ''coilMat'')"
proof -
  have b2: "2 < length (build Jsx)" and b33: "33 < length (build Jsx)"
    by (simp_all add: length_build_jsx)
  have n2: "isMesh (build Jsx ! 2)" "compId (build Jsx ! 2) = Some ''housing''"
    by (simp_all add: build_jsx_2 Mesh_def)
  have n33: "isMesh (build Jsx ! 33)" "compId (build Jsx ! 33) = Some ''stator_winding''"
    "material (build Jsx ! 33) = Some (Mat ''coilMat'')"
    by (simp_all add: build_jsx_33 Mesh_def)
  note f2 = frames_node [OF b2, of "[] @ [Some ''housing'']", folded animate_frames]
  note f33 = frames_node [OF b33, of "[Some ''stator_winding''] @ [Some ''housing'']",
      folded animate_frames]
  have m2: "isMesh (motor (animate Jsx (Some ''housing'') (frames Jsx [])) ! 2)"
    using f2(2) n2(1) by simp
  have m33: "isMesh (motor (animate Jsx (Some ''housing'') (frames Jsx [Some ''stator_winding''])) ! 33)"
    using f33(2) n33(1) by simp
  note t2 = highlight_pass_result [where v = Jsx and s = "Some ''housing''" and hids = "[]",
      rule_format, OF f2(1) m2]
  note t33 = highlight_pass_result [where v = Jsx and s = "Some ''housing''"
      and hids = "[Some ''stator_winding'']", rule_format, OF f33(1) m33]
  have r2: "material (motor (animate Jsx (Some ''housing'') (frames Jsx [])) ! 2) =
      Some (Mat ''highlightMat'')"
    using t2 unfolding f2(3) n2(2) by simp
  have r33: "material (motor (animate Jsx (Some ''housing'') (frames Jsx [Some ''stator_winding''])) ! 33) =
      Some (Mat ''coilMat'')"
    using t33 unfolding f33(3) n33 by simp
  from f2(1) m2 r2 f33(1) m33 r33 show ?thesis
    by blast
qed

section \<open>Rotation of the fan\<close>

lemma not_whole_turns:
  assumes "x = 2 * pi * (58 / 125)"
  shows "\<not> same_position (2 * x) x"
proof
  assume "same_position (2 * x) x"
  then obtain k :: int where "2 * x - x = 2 * pi * real_of_int k"
    unfolding same_position_def by blast
  with assms have "2 * pi * (58 / 125) = 2 * pi * real_of_int k"
    by simp
  then have "real_of_int k = 58 / 125"
    by simp
  then have "real_of_int (125 * k) = real_of_int 58"
    by simp
  then have "125 * k = 58"
    by (simp only: of_int_eq_iff)
  then show False
    by presburger
qed

text \<open>
  C4. In \<^verbatim>\<open>src/sew_predictive.jsx\<close> the fan group turns with the rotor group in every frame.
  In \<^verbatim>\<open>src/README.md\<close> the fan group is a child of the rotor group and is given the
  rotor's angle once more, so in world space it has twice the rotor's angle; after the
  first frame the two are different positions.
\<close>

theorem fan_world_rotation:
  "world_rotation_z (frames Jsx hids) FanG = world_rotation_z (frames Jsx hids) RotorG \<and>
   world_rotation_z (frames Jsx hids) RotorG = rotor_angle (timeRef (frames Jsx hids)) \<and>
   world_rotation_z (frames Readme hids) RotorG = rotor_angle (timeRef (frames Readme hids)) \<and>
   world_rotation_z (frames Readme hids) FanG = 2 * rotor_angle (timeRef (frames Readme hids)) \<and>
   world_rotation_z (frames Readme [None]) FanG \<noteq> world_rotation_z (frames Readme [None]) RotorG \<and>
   \<not> same_position (world_rotation_z (frames Readme [None]) FanG)
                     (world_rotation_z (frames Readme [None]) RotorG)"
proof -
  have t1: "rotor_angle (timeRef (frames Readme [None])) = 2 * pi * (58 / 125)"
    by (simp add: timeRef_frames rotor_angle_def angV_def)
  have w: "world_rotation_z (frames Readme [None]) RotorG = 2 * pi * (58 / 125)"
      "world_rotation_z (frames Readme [None]) FanG = 2 * (2 * pi * (58 / 125))"
    using rotation_frames_readme [of "[None]"] t1 by simp_all
  have ns: "\<not> same_position (world_rotation_z (frames Readme [None]) FanG)
                     (world_rotation_z (frames Readme [None]) RotorG)"
    unfolding w by (rule not_whole_turns) simp
  have ne: "world_rotation_z (frames Readme [None]) FanG \<noteq> world_rotation_z (frames Readme [None]) RotorG"
    unfolding w by simp
  show ?thesis
    using rotation_frames_jsx [of hids] rotation_frames_readme [of hids] ns ne
    by simp
qed

section \<open>The solid arc\<close>

text \<open>
  C5, as amended. For a cut arc with cutStart < cutEnd that is shorter than a full turn,
  the solid arc from cutEnd to cutStart + 2 * pi spans 2 * pi - (cutEnd - cutStart), the
  span is positive and the arc's end is greater than its start.
\<close>

theorem solid_arc_complement:
  assumes "cutStart < cutEnd" and "cutEnd - cutStart < 2 * pi"
  shows "SOLID_END cutStart cutEnd - SOLID_START cutStart cutEnd = 2 * pi - (cutEnd - cutStart) \<and>
         0 < SOLID_END cutStart cutEnd - SOLID_START cutStart cutEnd \<and>
         SOLID_START cutStart cutEnd < SOLID_END cutStart cutEnd"
  using assms by (simp add: SOLID_START_def SOLID_END_def)

text \<open>The cut of the housing, from -50 to 140 degrees, is such a cut.\<close>

theorem solid_arc_complement_witness:
  "CUT_START < CUT_END \<and> CUT_END - CUT_START < 2 * pi \<and>
   SOLID_END CUT_START CUT_END - SOLID_START CUT_START CUT_END = 2 * pi - (CUT_END - CUT_START) \<and>
   0 < SOLID_END CUT_START CUT_END - SOLID_START CUT_START CUT_END \<and>
   SOLID_START CUT_START CUT_END < SOLID_END CUT_START CUT_END"
proof -
  have h1: "CUT_START < CUT_END"
    unfolding CUT_START_def CUT_END_def using pi_gt_zero by linarith
  have h2: "CUT_END - CUT_START < 2 * pi"
    unfolding CUT_START_def CUT_END_def using pi_gt_zero by linarith
  from h1 h2 solid_arc_complement [OF h1 h2] show ?thesis by blast
qed

text \<open>
  Without the bound on the cut's length the claim fails: for a cut from 0 to 8 radians,
  longer than a full turn, the span is negative.
\<close>

theorem solid_arc_counterexample:
  "(0::real) < 8 \<and>
   SOLID_END 0 8 - SOLID_START 0 8 = 2 * pi - (8 - 0) \<and>
   \<not> 0 < SOLID_END 0 8 - SOLID_START 0 8 \<and>
   \<not> SOLID_START 0 8 < SOLID_END 0 8"
  using pi_less_4 by (simp add: SOLID_START_def SOLID_END_def)

section \<open>Selection toggle\<close>

text \<open>
  C6. For distinct component ids X and Y, starting from a selection that is not X: clicking
  the card of X and then X again leaves nothing selected, and clicking X and then Y leaves
  Y selected.
\<close>

theorem selection_toggle:
  assumes "X \<noteq> Y" and "sel \<noteq> Some X"
  shows "card_click (card_click sel X) X = None \<and>
         card_click (card_click sel X) Y = Some Y"
  using assms by (simp add: card_click_def)

theorem selection_toggle_witness:
  "''shaft'' \<noteq> ''housing'' \<and> (None :: string option) \<noteq> Some ''shaft'' \<and>
   card_click (card_click None ''shaft'') ''shaft'' = None \<and>
   card_click (card_click None ''shaft'') ''housing'' = Some ''housing''"
  using selection_toggle [of "''shaft''" "''housing''" None] by simp

section \<open>The camera stays within its clamps\<close>

lemma zoom_bounds: "zoom_min v \<le> zoom_max v"
  by (cases v) simp_all

lemma polar_bounds: "(0.15::real) \<le> pi - 0.15"
  using pi_ge_two by simp

lemma clamp_bounds:
  fixes lo hi x :: real
  assumes "lo \<le> hi"
  shows "lo \<le> max lo (min hi x)" and "max lo (min hi x) \<le> hi"
  using assms by (auto simp: max_def min_def)

lemma onWheel_inv:
  assumes "orbit_inv v ob"
  shows "orbit_inv v (onWheel v d ob)"
proof -
  have r: "radius (sph (onWheel v d ob)) =
      max (zoom_min v) (min (zoom_max v) (radius (sph ob) + d * 0.0004))"
    and p: "phi (sph (onWheel v d ob)) = phi (sph ob)"
    by (simp_all add: onWheel_def)
  show ?thesis
    unfolding orbit_inv_def r p
    using assms clamp_bounds [OF zoom_bounds [of v]]
    by (simp only: orbit_inv_def simp_thms)
qed

lemma onMove_inv:
  assumes "orbit_inv v ob"
  shows "orbit_inv v (onMove x y ob)"
proof (cases "isDrag ob")
  case False
  with assms show ?thesis by (simp add: onMove_def)
next
  case True
  then have r: "radius (sph (onMove x y ob)) = radius (sph ob)"
    and p: "phi (sph (onMove x y ob)) =
      max 0.15 (min (pi - 0.15) (phi (sph ob) - (y - prev_y ob) * 0.005))"
    by (simp_all add: onMove_def Let_def)
  show ?thesis
    unfolding orbit_inv_def r p
    using assms clamp_bounds [OF polar_bounds]
    by (simp only: orbit_inv_def simp_thms)
qed

lemma dispatch_inv:
  assumes "orbit_inv v ob"
  shows "orbit_inv v (dispatch v e ob)"
proof (cases e)
  case (Wheel d)
  with assms show ?thesis by (simp add: onWheel_inv)
next
  case (Mousemove x y)
  with assms show ?thesis by (simp add: onMove_inv)
next
  case (Touchmove ts)
  with assms show ?thesis by (simp add: onMove_inv)
qed (use assms in \<open>simp_all add: orbit_inv_def onDown_def onUp_def\<close>)

lemma fold_dispatch_inv:
  "orbit_inv v ob \<Longrightarrow> orbit_inv v (fold (dispatch v) evs ob)"
  by (induction evs arbitrary: ob) (simp_all add: dispatch_inv)

lemma arccos_polar:
  assumes "0 \<le> c" and "c \<le> 4 / 5"
  shows "0.15 \<le> arccos c \<and> arccos c \<le> pi - 0.15"
proof
  have "(4::real) / 5 \<le> 1 - (0.15)\<^sup>2 / 2"
    by (simp add: power2_eq_square)
  also have "\<dots> \<le> cos 0.15"
    by (rule cos_lower_quadratic)
  finally have c: "c \<le> cos 0.15"
    using assms(2) by simp
  have "arccos (cos 0.15) \<le> arccos c"
    by (rule arccos_le_arccos) (use assms c in simp_all)
  moreover have "arccos (cos 0.15) = 0.15"
    by (rule arccos_cos) (use pi_ge_two in simp_all)
  ultimately show "0.15 \<le> arccos c"
    by simp
  have "arccos c \<le> pi / 2"
    by (rule arccos_le_pi2) (use assms in simp_all)
  then show "arccos c \<le> pi - 0.15"
    using pi_ge_two by simp
qed

lemma init_spherical:
  assumes q: "x * x + y * y + z * z = q"
    and lo: "0 < lo" "lo\<^sup>2 \<le> q"
    and hi: "0 \<le> hi" "q \<le> hi\<^sup>2"
    and y: "0 \<le> y" "(5 / 4 * y)\<^sup>2 \<le> q"
  shows "lo \<le> radius (setFromVector3 (x, y, z)) \<and>
         radius (setFromVector3 (x, y, z)) \<le> hi \<and>
         0.15 \<le> phi (setFromVector3 (x, y, z)) \<and>
         phi (setFromVector3 (x, y, z)) \<le> pi - 0.15"
proof -
  have r: "lo \<le> sqrt q"
    by (rule real_le_rsqrt) (rule lo(2))
  have r1: "sqrt q \<le> hi"
    by (rule real_le_lsqrt) (use lo hi in simp_all)
  from r lo(1) have r0: "sqrt q \<noteq> 0" "0 < sqrt q"
    by linarith+
  have c0: "0 \<le> y / sqrt q"
    using y(1) r0 by simp
  have "5 / 4 * y \<le> sqrt q"
    by (rule real_le_rsqrt) (rule y(2))
  then have "y \<le> 4 / 5 * sqrt q"
    by simp
  then have c1: "y / sqrt q \<le> 4 / 5"
    using r0 by (simp add: pos_divide_le_eq)
  from c0 c1 have c2: "y / sqrt q \<le> 1" "- 1 \<le> y / sqrt q"
    by linarith+
  have m: "max (- 1) (min 1 (y / sqrt q)) = y / sqrt q"
    by (simp only: min_absorb2 [OF c2(1)] max_absorb2 [OF c2(2)])
  have p: "phi (setFromVector3 (x, y, z)) = arccos (y / sqrt q)"
    using r0 m by (simp add: setFromVector3_def q Let_def)
  have rad: "radius (setFromVector3 (x, y, z)) = sqrt q"
    by (simp add: setFromVector3_def q Let_def)
  show ?thesis
    unfolding p rad using r r1 arccos_polar [OF c0 c1] by simp
qed

lemma orbit_init_inv: "orbit_inv v (orbit_init v)"
proof (cases v)
  case Jsx
  have q: "(0.38::real) * 0.38 + 0.16 * 0.16 + 0.34 * 0.34 = 0.2856"
    by simp
  have "0.2 \<le> radius (setFromVector3 (0.38, 0.16, 0.34)) \<and>
        radius (setFromVector3 (0.38, 0.16, 0.34)) \<le> 1.0 \<and>
        0.15 \<le> phi (setFromVector3 (0.38, 0.16, 0.34)) \<and>
        phi (setFromVector3 (0.38, 0.16, 0.34)) \<le> pi - 0.15"
    by (rule init_spherical [OF q]) (simp_all add: power2_eq_square)
  then show ?thesis
    unfolding Jsx by (simp add: orbit_inv_def orbit_init_def)
next
  case Readme
  have q: "(0.34::real) * 0.34 + 0.18 * 0.18 + 0.36 * 0.36 = 0.2776"
    by simp
  have "0.22 \<le> radius (setFromVector3 (0.34, 0.18, 0.36)) \<and>
        radius (setFromVector3 (0.34, 0.18, 0.36)) \<le> 0.9 \<and>
        0.15 \<le> phi (setFromVector3 (0.34, 0.18, 0.36)) \<and>
        phi (setFromVector3 (0.34, 0.18, 0.36)) \<le> pi - 0.15"
    by (rule init_spherical [OF q]) (simp_all add: power2_eq_square)
  then show ?thesis
    unfolding Readme by (simp add: orbit_inv_def orbit_init_def)
qed

text \<open>
  C7. From the initial spherical state of the camera, after any sequence of events the
  orbit radius is within [0.2, 1.0] in \<^verbatim>\<open>src/sew_predictive.jsx\<close> and within [0.22, 0.9]
  in \<^verbatim>\<open>src/README.md\<close>, and the polar angle is within [0.15, pi - 0.15] in both.
\<close>

theorem camera_clamp:
  "0.2 \<le> radius (sph (run_events Jsx evs)) \<and> radius (sph (run_events Jsx evs)) \<le> 1.0 \<and>
   0.22 \<le> radius (sph (run_events Readme evs)) \<and> radius (sph (run_events Readme evs)) \<le> 0.9 \<and>
   0.15 \<le> phi (sph (run_events v evs)) \<and> phi (sph (run_events v evs)) \<le> pi - 0.15"
proof -
  have "orbit_inv w (run_events w evs)" for w
    unfolding run_events_def by (rule fold_dispatch_inv) (rule orbit_init_inv)
  from this [of Jsx] this [of Readme] this [of v] show ?thesis
    by (simp add: orbit_inv_def)
qed

section \<open>The highlight pass is idempotent\<close>

lemma traverse_map_idem:
  assumes "\<And>i c. f i (f i c) = f i c"
  shows "traverse_map f i (traverse_map f i cs) = traverse_map f i cs"
  by (induction cs arbitrary: i) (simp_all add: assms)

lemma highlight_visit_jsx_idem:
  "highlight_visit_jsx hid om i (highlight_visit_jsx hid om i c) = highlight_visit_jsx hid om i c"
  by (simp add: highlight_visit_jsx_def orig_or_current_def split: option.splits)

lemma highlight_visit_readme_idem:
  "highlight_visit_readme hid om i (highlight_visit_readme hid om i c) =
     highlight_visit_readme hid om i c"
  by (simp add: highlight_visit_readme_def orig_or_current_def split: option.splits)

text \<open>
  C8. For every selection, every map of original materials and every list of nodes with
  any materials, a second highlight pass changes nothing.
\<close>

theorem highlight_idempotent:
  "highlight_pass v s om (highlight_pass v s om objs) = highlight_pass v s om objs"
proof (cases v)
  case Jsx
  show ?thesis
    unfolding Jsx highlight_pass.simps
    by (rule traverse_map_idem) (rule highlight_visit_jsx_idem)
next
  case Readme
  show ?thesis
    unfolding Readme highlight_pass.simps
    by (rule traverse_map_idem) (rule highlight_visit_readme_idem)
qed

section \<open>The map of original materials is total on the meshes\<close>

text \<open>
  C9. In every frame the motor group has the nodes it was built with, and for every mesh
  the map of original materials holds the material the mesh was built with, so
  \<^verbatim>\<open>origMats.get(c) || c.material\<close> is that material and never falls back to the current one.
\<close>

theorem restore_uses_recorded_material:
  "length (motor (frames v hids)) = length (build v) \<and>
   (\<forall>j < length (motor (frames v hids)).
      isMesh (motor (frames v hids) ! j) \<longrightarrow>
        origMats (frames v hids) j \<noteq> None \<and>
        origMats (frames v hids) j = material (build v ! j) \<and>
        orig_or_current (origMats (frames v hids)) j (motor (frames v hids) ! j) =
          material (build v ! j))"
proof (intro conjI allI impI)
  show "length (motor (frames v hids)) = length (build v)"
    using frames_invariant [of v hids] map_eq_imp_length_eq by blast
next
  fix j
  assume j: "j < length (motor (frames v hids))" and m: "isMesh (motor (frames v hids) ! j)"
  note f = frames_mesh [OF j m]
  from f(2) f(5) show n: "origMats (frames v hids) j \<noteq> None"
    unfolding f(6) by (simp add: mesh_ok_def)
  show "origMats (frames v hids) j = material (build v ! j)"
    by (rule f(6))
  from n show "orig_or_current (origMats (frames v hids)) j (motor (frames v hids) ! j) =
      material (build v ! j)"
    by (auto simp: orig_or_current_def f(6))
qed

text \<open>
  The housing barrel of \<^verbatim>\<open>src/README.md\<close> after a frame that highlighted it: its current
  material is the highlight, the restore value is the housing material.
\<close>

theorem restore_uses_recorded_material_witness:
  "2 < length (motor (frames Readme [Some ''housing''])) \<and>
   isMesh (motor (frames Readme [Some ''housing'']) ! 2) \<and>
   material (motor (frames Readme [Some ''housing'']) ! 2) = Some (Mat ''mHLIGHT'') \<and>
   origMats (frames Readme [Some ''housing'']) 2 = Some (Mat ''mHousing'') \<and>
   orig_or_current (origMats (frames Readme [Some ''housing'']))
     2 (motor (frames Readme [Some ''housing'']) ! 2) = Some (Mat ''mHousing'') \<and>
   length (motor (frames Readme [Some ''housing''])) = 262"
proof -
  let ?st = "frames Readme [Some ''housing'']"
  have b2: "2 < length (build Readme)"
    by (simp add: length_build_readme)
  have n2: "isMesh (build Readme ! 2)" "material (build Readme ! 2) = Some (Mat ''mHousing'')"
    "compId (build Readme ! 2) = Some ''housing''" "\<not> isLabel (build Readme ! 2)"
    by (simp_all add: build_readme_2 Mesh_def)
  note f2 = frames_node [OF b2, of "[Some ''housing'']"]
  have m2: "isMesh (motor ?st ! 2)"
    using f2(2) n2(1) by simp
  note t = restore_uses_recorded_material [of Readme "[Some ''housing'']"]
  from t have len: "length (motor ?st) = 262"
    by (simp add: length_build_readme)
  from t f2(1) m2 have
    "origMats ?st 2 = material (build Readme ! 2) \<and>
     orig_or_current (origMats ?st) 2 (motor ?st ! 2) = material (build Readme ! 2)"
    by blast
  then have r: "origMats ?st 2 = Some (Mat ''mHousing'')"
    "orig_or_current (origMats ?st) 2 (motor ?st ! 2) = Some (Mat ''mHousing'')"
    unfolding n2(2) by simp_all
  let ?f = "highlight_visit_readme (Some ''housing'') (origMats (mount Readme))"
  have e: "(0::nat) + 2 = 2"
    by simp
  have tm: "traverse_map ?f 0 (build Readme) ! 2 = ?f 2 (build Readme ! 2)"
    using nth_traverse_map [OF b2, of ?f 0] unfolding e .
  have mo: "motor ?st = traverse_map ?f 0 (build Readme)"
    by (simp add: frames_def animate_fields mount_def)
  have "motor ?st ! 2 = ?f 2 (build Readme ! 2)"
    unfolding mo tm ..
  then have h: "material (motor ?st ! 2) = Some (Mat ''mHLIGHT'')"
    using n2 by (simp add: highlight_visit_readme_def truthy_def)
  from f2(1) m2 h r len show ?thesis
    by blast
qed

section \<open>The coil pulse\<close>

lemma sin_shift_turns: "sin (x + 2 * pi * real k) = sin x"
proof -
  have "sin (x + (2 * pi) * of_int (int k)) = sin x"
    by (simp only: sin_add sin_int_2pin cos_int_2pin mult_1_right mult_zero_right add_0_right)
  then show ?thesis by simp
qed

lemma sin_reaches_low:
  fixes d p :: real
  assumes "0 < d" and "d \<le> 2 / 5"
  shows "\<exists>n::nat. 0 < n \<and> sin (d * real n + p) \<le> - (23 / 25)"
proof -
  define k where "k = nat \<lceil>p / (2 * pi)\<rceil>"
  define L where "L = 3 / 2 * pi + 2 * pi * real k - p"
  define n where "n = nat \<lfloor>L / d\<rfloor>"
  define \<delta> where "\<delta> = L - d * real n"
  have "p / (2 * pi) \<le> real k"
    unfolding k_def by (simp add: of_nat_ceiling)
  then have "p \<le> 2 * pi * real k"
    by (simp add: pos_divide_le_eq mult.commute)
  then have "3 / 2 * pi \<le> L"
    unfolding L_def by linarith
  with pi_ge_two have L1: "d \<le> L"
    using assms(2) by linarith
  then have q1: "1 \<le> L / d"
    using assms(1) by (simp add: pos_le_divide_eq)
  then have "1 \<le> \<lfloor>L / d\<rfloor>"
    by linarith
  then have n0: "0 < n" and n1: "real n = of_int \<lfloor>L / d\<rfloor>"
    unfolding n_def by simp_all
  have "real n \<le> L / d" "L / d < real n + 1"
    unfolding n1 by linarith+
  then have "d * real n \<le> L" "L < d * real n + d"
    using assms(1) by (simp_all add: pos_le_divide_eq pos_divide_less_eq algebra_simps)
  then have d0: "0 \<le> \<delta>" and d1: "\<delta> < d"
    unfolding \<delta>_def by simp_all
  have "d * real n + p = (3 / 2 * pi - \<delta>) + 2 * pi * real k"
    unfolding \<delta>_def L_def by simp
  then have "sin (d * real n + p) = sin (3 / 2 * pi - \<delta>)"
    by (simp only: sin_shift_turns)
  also have "\<dots> = - cos \<delta>"
    by (simp only: sin_diff sin_3over2_pi cos_3over2_pi)
  finally have s: "sin (d * real n + p) = - cos \<delta>" .
  have "\<delta>\<^sup>2 \<le> (2 / 5)\<^sup>2"
    using d0 d1 assms(2) by (intro power_mono) simp_all
  then have "23 / 25 \<le> 1 - \<delta>\<^sup>2 / 2"
    by (simp add: power2_eq_square)
  also have "\<dots> \<le> cos \<delta>"
    by (rule cos_lower_quadratic)
  finally have "sin (d * real n + p) \<le> - (23 / 25)"
    unfolding s by linarith
  with n0 show ?thesis
    by blast
qed

lemma pulse_value_range:
  "- 0.05 \<le> pulse_value Jsx t c" "pulse_value Jsx t c \<le> 0.45"
  "- 0.08 \<le> pulse_value Readme t c" "pulse_value Readme t c \<le> 0.36"
proof -
  have lj: "- 1 \<le> y \<Longrightarrow> y \<le> 1 \<Longrightarrow> - 0.05 \<le> 0.2 + y * 0.25 \<and> 0.2 + y * 0.25 \<le> 0.45"
    for y :: real
    by simp
  have lr: "- 1 \<le> y \<Longrightarrow> y \<le> 1 \<Longrightarrow> - 0.08 \<le> 0.14 + y * 0.22 \<and> 0.14 + y * 0.22 \<le> 0.36"
    for y :: real
    by simp
  have j: "- 0.05 \<le> 0.2 + sin x * 0.25 \<and> 0.2 + sin x * 0.25 \<le> 0.45" for x :: real
    by (rule lj) simp_all
  have r: "- 0.08 \<le> 0.14 + sin x * 0.22 \<and> 0.14 + sin x * 0.22 \<le> 0.36" for x :: real
    by (rule lr) simp_all
  show "- 0.05 \<le> pulse_value Jsx t c" "pulse_value Jsx t c \<le> 0.45"
    unfolding pulse_value.simps Let_def by (rule j [THEN conjunct1], rule j [THEN conjunct2])
  show "- 0.08 \<le> pulse_value Readme t c" "pulse_value Readme t c \<le> 0.36"
    unfolding pulse_value.simps Let_def by (rule r [THEN conjunct1], rule r [THEN conjunct2])
qed

lemma pulse_value_negative: "\<exists>n::nat. 0 < n \<and> pulse_value v (0.016 * real n) c < 0"
proof (cases v)
  case Jsx
  obtain n :: nat where "0 < n"
    "sin (2 / 5 * real n + (position_y c + position_z c) * 25) \<le> - (23 / 25)"
    using sin_reaches_low [of "2 / 5"] by auto
  then have "0 < n \<and> pulse_value Jsx (0.016 * real n) c < 0"
    by (simp add: Let_def)
  then show ?thesis
    unfolding Jsx by (rule exI)
next
  case Readme
  obtain n :: nat where "0 < n"
    "sin (36 / 125 * real n + atan2 (position_x c) (position_y c) * 3) \<le> - (23 / 25)"
    using sin_reaches_low [of "36 / 125"] by auto
  then have "0 < n \<and> pulse_value Readme (0.016 * real n) c < 0"
    by (simp add: Let_def)
  then show ?thesis
    unfolding Readme by (rule exI)
qed

lemma traverse_fold_snoc:
  "traverse_fold f i (cs @ [c]) s = f (i + length cs) c (traverse_fold f i cs s)"
  by (induction cs arbitrary: i s) simp_all

lemma pulse_written:
  assumes "j < length cs" and "pulse_guard v om (i + j) (cs ! j)" and "om (i + j) = Some m"
  shows "\<exists>j' < length cs. pulse_guard v om (i + j') (cs ! j') \<and> om (i + j') = Some m \<and>
           traverse_fold (pulse_visit v t om) i cs em m = pulse_value v t (cs ! j')"
  using assms
proof (induction cs arbitrary: j rule: rev_induct)
  case Nil
  then show ?case by simp
next
  case (snoc c cs)
  let ?R = "traverse_fold (pulse_visit v t om) i cs em"
  let ?n = "length cs"
  have res: "traverse_fold (pulse_visit v t om) i (cs @ [c]) em = pulse_visit v t om (i + ?n) c ?R"
    by (rule traverse_fold_snoc)
  show ?case
  proof (cases "pulse_guard v om (i + ?n) c \<and> om (i + ?n) = Some m")
    case True
    then have "pulse_visit v t om (i + ?n) c ?R m = pulse_value v t c"
      by (simp add: pulse_visit_def)
    with True have "pulse_guard v om (i + ?n) ((cs @ [c]) ! ?n) \<and> om (i + ?n) = Some m \<and>
        traverse_fold (pulse_visit v t om) i (cs @ [c]) em m = pulse_value v t ((cs @ [c]) ! ?n)"
      unfolding res by simp
    moreover have "?n < length (cs @ [c])"
      by simp
    ultimately show ?thesis
      by blast
  next
    case False
    then have same: "pulse_visit v t om (i + ?n) c ?R m = ?R m"
      by (auto simp: pulse_visit_def split: option.splits)
    have "j \<noteq> ?n"
      using False snoc.prems(2,3) by auto
    with snoc.prems(1) have j: "j < ?n"
      by simp
    with snoc.prems have "pulse_guard v om (i + j) (cs ! j)" "om (i + j) = Some m"
      by (simp_all add: nth_append)
    from snoc.IH [OF j this] obtain j' where j': "j' < ?n"
      "pulse_guard v om (i + j') (cs ! j')" "om (i + j') = Some m"
      "?R m = pulse_value v t (cs ! j')"
      by blast
    then have "j' < length (cs @ [c]) \<and> pulse_guard v om (i + j') ((cs @ [c]) ! j') \<and>
        om (i + j') = Some m \<and>
        traverse_fold (pulse_visit v t om) i (cs @ [c]) em m = pulse_value v t ((cs @ [c]) ! j')"
      unfolding res same by (simp add: nth_append)
    then show ?thesis
      by blast
  qed
qed

lemma animate_emissive:
  "emissiveIntensity (animate v s st) =
     coil_pulse v (timeRef (animate v s st)) (origMats st) (motor (animate v s st))
       (emissiveIntensity st)"
  by (cases v) (simp_all add: animate_def Let_def)

lemma animate_pulse_written:
  assumes "j < length (motor (animate v s st))"
    and "pulse_guard v (origMats st) j (motor (animate v s st) ! j)"
    and "origMats st j = Some m"
  shows "\<exists>j' < length (motor (animate v s st)).
           pulse_guard v (origMats st) j' (motor (animate v s st) ! j') \<and>
           origMats st j' = Some m \<and>
           emissiveIntensity (animate v s st) m =
             pulse_value v (timeRef (animate v s st)) (motor (animate v s st) ! j')"
proof -
  have "\<exists>j' < length (motor (animate v s st)).
      pulse_guard v (origMats st) (0 + j') (motor (animate v s st) ! j') \<and>
      origMats st (0 + j') = Some m \<and>
      traverse_fold (pulse_visit v (timeRef (animate v s st)) (origMats st)) 0
        (motor (animate v s st)) (emissiveIntensity st) m =
      pulse_value v (timeRef (animate v s st)) (motor (animate v s st) ! j')"
    by (rule pulse_written) (use assms in simp_all)
  then show ?thesis
    by (subst animate_emissive) (simp add: coil_pulse_def)
qed

lemma upt_12: "[0..<12] = [0, 1, 2, 3, 4, 5, 6, 7, 8, 9, 10, 11 :: nat]"
  by code_simp

lemma build_readme_128:
  "isMesh (build_readme ! 128) \<and> compId (build_readme ! 128) = Some ''stator_winding'' \<and>
   material (build_readme ! 128) = Some (Mat ''mCoil'')"
  by (simp add: build_readme_def Let_def nth_append length_concat comp_def sum_list_triv upt_12 Mesh_def
        del: upt_Suc)

lemma drop_build_readme:
  "\<forall>c \<in> set (drop 129 build_readme). compId c \<noteq> Some ''stator_winding''"
  by (auto simp add: build_readme_def Let_def length_concat comp_def sum_list_triv Mesh_def Group_def
        simp del: upt_Suc)

lemma build_jsx_68:
  "isMesh (build_jsx ! 68) \<and> compId (build_jsx ! 68) = Some ''stator_winding'' \<and>
   material (build_jsx ! 68) = Some (Mat ''coilMat'')"
  by (simp add: build_jsx_def Let_def nth_append Mesh_def del: upt_Suc)

lemma drop_build_jsx:
  "\<forall>c \<in> set (drop 69 build_jsx). compId c \<noteq> Some ''stator_winding''"
  by (auto simp add: build_jsx_def Let_def Mesh_def Group_def simp del: upt_Suc)

lemma last_coil_node:
  "last_coil v < length (build v)"
  "isMesh (build v ! last_coil v)"
  "compId (build v ! last_coil v) = Some ''stator_winding''"
  "material (build v ! last_coil v) = Some (coil_material v)"
  "\<forall>c \<in> set (drop (Suc (last_coil v)) (build v)). compId c \<noteq> Some ''stator_winding''"
  using build_jsx_68 build_readme_128 drop_build_jsx drop_build_readme
  by (cases v; simp add: length_build_jsx length_build_readme)+

lemma traverse_fold_append:
  "traverse_fold f i (xs @ ys) s = traverse_fold f (i + length xs) ys (traverse_fold f i xs s)"
  by (induction xs arbitrary: i s) simp_all

lemma pulse_guard_winding: "pulse_guard v om i c \<Longrightarrow> compId c = Some ''stator_winding''"
  by (cases v) simp_all

lemma pulse_no_winding:
  "\<forall>c \<in> set cs. compId c \<noteq> Some ''stator_winding'' \<Longrightarrow>
     traverse_fold (pulse_visit v t om) i cs em = em"
proof (induction cs arbitrary: i em)
  case Nil
  show ?case by simp
next
  case (Cons c cs)
  from Cons.prems have "\<not> pulse_guard v om i c"
    using pulse_guard_winding by fastforce
  then have "pulse_visit v t om i c em = em"
    by (simp add: pulse_visit_def)
  with Cons show ?case
    by simp
qed

lemma pulse_last_writer:
  assumes "j < length cs" and "pulse_guard v om j (cs ! j)" and "om j = Some m"
    and "\<forall>c \<in> set (drop (Suc j) cs). compId c \<noteq> Some ''stator_winding''"
  shows "traverse_fold (pulse_visit v t om) 0 cs em m = pulse_value v t (cs ! j)"
proof -
  let ?f = "pulse_visit v t om"
  have cs: "cs = take j cs @ [cs ! j] @ drop (Suc j) cs"
    using assms(1) by (simp add: id_take_nth_drop [symmetric])
  have l: "length (take j cs) = j"
    using assms(1) by simp
  have "traverse_fold ?f 0 cs em =
      traverse_fold ?f 0 (take j cs @ [cs ! j] @ drop (Suc j) cs) em"
    using cs by simp
  also have "\<dots> = traverse_fold ?f (Suc j) (drop (Suc j) cs)
      (?f j (cs ! j) (traverse_fold ?f 0 (take j cs) em))"
    by (simp only: traverse_fold_append l) simp
  also have "\<dots> = ?f j (cs ! j) (traverse_fold ?f 0 (take j cs) em)"
    by (rule pulse_no_winding) (rule assms(4))
  finally show ?thesis
    using assms(2,3) by (simp add: pulse_visit_def)
qed

lemma pulse_value_shape: "pulse_value v t c = pulse_value v t (shape c)"
  by (cases v) (simp_all add: shape_def)

lemma shape_drop:
  assumes "map shape xs = map shape ys" and "c \<in> set (drop k xs)"
  shows "\<exists>c' \<in> set (drop k ys). shape c = shape c'"
proof -
  from assms(2) have "shape c \<in> set (map shape (drop k xs))"
    by simp
  also have "map shape (drop k xs) = map shape (drop k ys)"
    using assms(1) by (simp only: drop_map [symmetric])
  finally show ?thesis
    by auto
qed

lemma shape_compId: "shape c = shape c' \<Longrightarrow> compId c = compId c'"
proof -
  assume "shape c = shape c'"
  then have "compId (shape c) = compId (shape c')"
    by simp
  then show ?thesis
    by (simp add: shape_def)
qed

lemma frame_stores_last_coil:
  "emissiveIntensity (frames v (hs @ [s])) (coil_material v) =
     pulse_value v (timeRef (frames v (hs @ [s]))) (build v ! last_coil v)"
proof -
  let ?st = "frames v hs"
  let ?st' = "animate v s ?st"
  let ?j = "last_coil v"
  note lc = last_coil_node [of v]
  note f = frames_node [OF lc(1), of hs]
  note f' = frames_node [OF lc(1), of "hs @ [s]", folded animate_frames]
  note inv' = frames_invariant [of v "hs @ [s]", folded animate_frames, THEN conjunct1]
  have om: "origMats ?st ?j = Some (coil_material v)"
    using f(4) lc(2,4) by simp
  have g: "pulse_guard v (origMats ?st) ?j (motor ?st' ! ?j)"
    using f'(2,3) lc(2,3) om by (cases v) simp_all
  have d: "\<forall>c \<in> set (drop (Suc ?j) (motor ?st')). compId c \<noteq> Some ''stator_winding''"
  proof
    fix c
    assume "c \<in> set (drop (Suc ?j) (motor ?st'))"
    from shape_drop [OF inv' this] obtain c' where
      "c' \<in> set (drop (Suc ?j) (build v))" "shape c = shape c'"
      by blast
    from this(1) lc(5) have "compId c' \<noteq> Some ''stator_winding''"
      by blast
    with shape_compId [OF \<open>shape c = shape c'\<close>] show "compId c \<noteq> Some ''stator_winding''"
      by simp
  qed
  have "map shape (motor ?st') ! ?j = map shape (build v) ! ?j"
    using inv' by simp
  then have "shape (motor ?st' ! ?j) = shape (build v ! ?j)"
    using f'(1) lc(1) by simp
  then have p: "pulse_value v t (motor ?st' ! ?j) = pulse_value v t (build v ! ?j)" for t
    using pulse_value_shape [of v t "motor ?st' ! ?j"] pulse_value_shape [of v t "build v ! ?j"]
    by simp
  have "emissiveIntensity ?st' (coil_material v) =
      pulse_value v (timeRef ?st') (motor ?st' ! ?j)"
    unfolding animate_emissive [of v s ?st] coil_pulse_def
    by (rule pulse_last_writer [OF f'(1) g om d])
  then have "emissiveIntensity ?st' (coil_material v) =
      pulse_value v (timeRef ?st') (build v ! ?j)"
    by (simp only: p)
  then show ?thesis
    by (simp only: animate_frames)
qed

lemma run_reaches_negative:
  "\<exists>n. \<forall>hids. length hids = n \<longrightarrow> emissiveIntensity (frames v hids) (coil_material v) < 0"
proof -
  obtain n :: nat where n: "0 < n" "pulse_value v (0.016 * real n) (build v ! last_coil v) < 0"
    using pulse_value_negative by blast
  have "emissiveIntensity (frames v hids) (coil_material v) < 0" if "length hids = n" for hids
  proof -
    from that n(1) have "hids \<noteq> []"
      by auto
    then obtain hs s where h: "hids = hs @ [s]"
      by (metis rev_exhaust)
    have t: "timeRef (frames v hids) = 0.016 * real n"
      unfolding timeRef_frames that ..
    have e: "emissiveIntensity (frames v hids) (coil_material v) =
        pulse_value v (timeRef (frames v hids)) (build v ! last_coil v)"
      unfolding h by (rule frame_stores_last_coil)
    show ?thesis
      unfolding e t by (rule n(2))
  qed
  then show ?thesis
    by blast
qed

text \<open>
  C10. The intensity the coil pulse writes lies in [-0.05, 0.45] in
  \<^verbatim>\<open>src/sew_predictive.jsx\<close> and in [-0.08, 0.36] in \<^verbatim>\<open>src/README.md\<close>, and so does, after
  a frame, the intensity of the original material of every mesh that passes the pulse's
  test. Nothing clamps it at zero: for every mesh there is a frame time 0.016 * n at which
  the written intensity is negative, the accumulated time after n frames is 0.016 * n, and
  in every run there is a frame after which the intensity stored in the coil material is
  negative, whatever was selected.
\<close>

theorem coil_pulse_range:
  "(- 0.05 \<le> pulse_value Jsx t c \<and> pulse_value Jsx t c \<le> 0.45) \<and>
   (- 0.08 \<le> pulse_value Readme t c \<and> pulse_value Readme t c \<le> 0.36) \<and>
   (\<forall>j < length (motor (animate Jsx s st)). \<forall>m.
      pulse_guard Jsx (origMats st) j (motor (animate Jsx s st) ! j) \<longrightarrow>
      origMats st j = Some m \<longrightarrow>
        - 0.05 \<le> emissiveIntensity (animate Jsx s st) m \<and>
        emissiveIntensity (animate Jsx s st) m \<le> 0.45) \<and>
   (\<forall>j < length (motor (animate Readme s st)). \<forall>m.
      pulse_guard Readme (origMats st) j (motor (animate Readme s st) ! j) \<longrightarrow>
      origMats st j = Some m \<longrightarrow>
        - 0.08 \<le> emissiveIntensity (animate Readme s st) m \<and>
        emissiveIntensity (animate Readme s st) m \<le> 0.36) \<and>
   (\<exists>n::nat. 0 < n \<and> pulse_value v (0.016 * real n) c < 0) \<and>
   timeRef (frames v hids) = 0.016 * real (length hids) \<and>
   (\<exists>n. \<forall>hids. length hids = n \<longrightarrow>
      emissiveIntensity (frames v hids) (coil_material v) < 0)"
proof (intro conjI allI impI run_reaches_negative)
  fix j m
  assume "j < length (motor (animate Jsx s st))"
    and "pulse_guard Jsx (origMats st) j (motor (animate Jsx s st) ! j)"
    and "origMats st j = Some m"
  from animate_pulse_written [OF this] obtain j' where
    e: "emissiveIntensity (animate Jsx s st) m =
          pulse_value Jsx (timeRef (animate Jsx s st)) (motor (animate Jsx s st) ! j')"
    by blast
  show "- 0.05 \<le> emissiveIntensity (animate Jsx s st) m"
    unfolding e by (rule pulse_value_range)
  show "emissiveIntensity (animate Jsx s st) m \<le> 0.45"
    unfolding e by (rule pulse_value_range)
next
  fix j m
  assume "j < length (motor (animate Readme s st))"
    and "pulse_guard Readme (origMats st) j (motor (animate Readme s st) ! j)"
    and "origMats st j = Some m"
  from animate_pulse_written [OF this] obtain j' where
    e: "emissiveIntensity (animate Readme s st) m =
          pulse_value Readme (timeRef (animate Readme s st)) (motor (animate Readme s st) ! j')"
    by blast
  show "- 0.08 \<le> emissiveIntensity (animate Readme s st) m"
    unfolding e by (rule pulse_value_range)
  show "emissiveIntensity (animate Readme s st) m \<le> 0.36"
    unfolding e by (rule pulse_value_range)
qed (rule pulse_value_range pulse_value_negative timeRef_frames)+

text \<open>The first stator coil of \<^verbatim>\<open>src/sew_predictive.jsx\<close> in the first frame.\<close>

theorem coil_pulse_range_witness:
  "33 < length (motor (animate Jsx None (mount Jsx))) \<and>
   pulse_guard Jsx (origMats (mount Jsx)) 33 (motor (animate Jsx None (mount Jsx)) ! 33) \<and>
   origMats (mount Jsx) 33 = Some (Mat ''coilMat'') \<and>
   - 0.05 \<le> emissiveIntensity (animate Jsx None (mount Jsx)) (Mat ''coilMat'') \<and>
   emissiveIntensity (animate Jsx None (mount Jsx)) (Mat ''coilMat'') \<le> 0.45"
proof -
  have mf: "mount Jsx = frames Jsx []"
    by (simp add: frames_def)
  have b33: "33 < length (build Jsx)"
    by (simp add: length_build_jsx)
  have n33: "isMesh (build Jsx ! 33)" "compId (build Jsx ! 33) = Some ''stator_winding''"
    "material (build Jsx ! 33) = Some (Mat ''coilMat'')"
    by (simp_all add: build_jsx_33 Mesh_def)
  note f0 = frames_node [OF b33, of "[]", folded mf]
  note f1 = frames_node [OF b33, of "[] @ [None]", folded animate_frames, folded mf]
  have om: "origMats (mount Jsx) 33 = Some (Mat ''coilMat'')"
    using f0(4) n33 by simp
  have g: "pulse_guard Jsx (origMats (mount Jsx)) 33 (motor (animate Jsx None (mount Jsx)) ! 33)"
    using f1(2,3) n33 om by simp
  note t = coil_pulse_range [where s = None and st = "mount Jsx",
      THEN conjunct2, THEN conjunct2, THEN conjunct1, rule_format, OF f1(1) g om]
  from f1(1) g om t show ?thesis
    by blast
qed
end
